theory Spec2Isabelle
  imports Main "HOL-Library.AList"
begin

section \<open>Strings of the JavaScript program\<close>

text \<open>
  A JavaScript string is represented by the bytes of its UTF-8 encoding, as a
  \<^typ>\<open>string\<close>. The strings the program handles come from the UTF-8 decoder of the HTTP
  client and from the HTML parser, so they are well formed. On this representation
  \<open>startsWith\<close>, \<open>split\<close> and \<open>join\<close> with ASCII arguments and the emptiness test
  \<open>s.length > 0\<close> read the bytes as they read the code units, and
  \<open>encodeURIComponent\<close> escapes byte by byte. The white space of \<open>trim\<close> and of the
  regular expression class \<open>\s\<close>, and the line terminators that \<open>.\<close> does not match,
  are the byte sequences of the characters ECMAScript lists.
\<close>

definition startsWith :: "string \<Rightarrow> string \<Rightarrow> bool" where
  "startsWith s p = (take (length p) s = p)"

definition str_includes :: "string \<Rightarrow> string \<Rightarrow> bool" where
  "str_includes s sub = list_ex (\<lambda>i. startsWith (drop i s) sub) [0..<Suc (length s)]"

fun join :: "string \<Rightarrow> string list \<Rightarrow> string" where
  "join sep [] = []"
| "join sep [x] = x"
| "join sep (x # y # ys) = x @ sep @ join sep (y # ys)"

text \<open>\<open>s.split(',')\<close>: the pieces between the separators; never an empty array.\<close>

fun split_on :: "char \<Rightarrow> string \<Rightarrow> string list" where
  "split_on d [] = [[]]"
| "split_on d (c # s) =
     (if c = d then [] # split_on d s
      else (case split_on d s of [] \<Rightarrow> [[c]] | t # ts \<Rightarrow> (c # t) # ts))"

text \<open>
  WhiteSpace and LineTerminator of ECMAScript, in UTF-8: U+0009 to U+000D, U+0020,
  U+00A0, U+1680, U+2000 to U+200A, U+2028, U+2029, U+202F, U+205F, U+3000, U+FEFF.
\<close>

definition WhiteSpace :: "string list" where
  "WhiteSpace =
     [[CHR 0x09], [CHR 0x0A], [CHR 0x0B], [CHR 0x0C], [CHR 0x0D], [CHR 0x20],
      [CHR 0xC2, CHR 0xA0], [CHR 0xE1, CHR 0x9A, CHR 0x80],
      [CHR 0xE2, CHR 0x80, CHR 0x80], [CHR 0xE2, CHR 0x80, CHR 0x81],
      [CHR 0xE2, CHR 0x80, CHR 0x82], [CHR 0xE2, CHR 0x80, CHR 0x83],
      [CHR 0xE2, CHR 0x80, CHR 0x84], [CHR 0xE2, CHR 0x80, CHR 0x85],
      [CHR 0xE2, CHR 0x80, CHR 0x86], [CHR 0xE2, CHR 0x80, CHR 0x87],
      [CHR 0xE2, CHR 0x80, CHR 0x88], [CHR 0xE2, CHR 0x80, CHR 0x89],
      [CHR 0xE2, CHR 0x80, CHR 0x8A], [CHR 0xE2, CHR 0x80, CHR 0xA8],
      [CHR 0xE2, CHR 0x80, CHR 0xA9], [CHR 0xE2, CHR 0x80, CHR 0xAF],
      [CHR 0xE2, CHR 0x81, CHR 0x9F], [CHR 0xE3, CHR 0x80, CHR 0x80],
      [CHR 0xEF, CHR 0xBB, CHR 0xBF]]"

definition LineTerminator :: "string list" where
  "LineTerminator =
     [[CHR 0x0A], [CHR 0x0D], [CHR 0xE2, CHR 0x80, CHR 0xA8], [CHR 0xE2, CHR 0x80, CHR 0xA9]]"

text \<open>The number of bytes of the character of the class \<open>cls\<close> at the head of \<open>s\<close>; 0 if none.\<close>

definition class_len :: "string list \<Rightarrow> string \<Rightarrow> nat" where
  "class_len cls s = (case find (startsWith s) cls of None \<Rightarrow> 0 | Some w \<Rightarrow> length w)"

text \<open>Drops the characters of the class from the head of the string, as long as there are any.\<close>

function strip_class :: "string list \<Rightarrow> string \<Rightarrow> string" where
  "strip_class cls s =
     (if class_len cls s = 0 then s else strip_class cls (drop (class_len cls s) s))"
  by pat_completeness auto

lemma class_len_le: "class_len cls s \<le> length s"
proof (cases "find (startsWith s) cls")
  case None
  then show ?thesis by (simp add: class_len_def)
next
  case (Some w)
  then have "startsWith s w" by (auto simp: find_Some_iff)
  then have "length w \<le> length s"
    by (metis startsWith_def length_take min.cobounded2 min.commute)
  with Some show ?thesis by (simp add: class_len_def)
qed

lemma class_len_pos_nonempty: "0 < class_len cls s \<Longrightarrow> s \<noteq> []"
  using class_len_le [of cls s] by auto

lemma class_len_pos_length: "0 < class_len cls s \<Longrightarrow> 0 < length s"
  using class_len_le [of cls s] by auto
termination strip_class
proof (relation "measure (\<lambda>(cls, s). length s)")
  show "wf (measure (\<lambda>(cls, s). length s))" by simp
next
  fix cls :: "string list" and s :: string
  assume "class_len cls s \<noteq> 0"
  then have "0 < length s" using class_len_pos_length [of cls s] by simp
  with \<open>class_len cls s \<noteq> 0\<close>
  show "((cls, drop (class_len cls s) s), (cls, s)) \<in> measure (\<lambda>(cls, s). length s)"
    by simp
qed

declare strip_class.simps [simp del]

definition trimStart :: "string \<Rightarrow> string" where
  "trimStart s = strip_class WhiteSpace s"

definition trimEnd :: "string \<Rightarrow> string" where
  "trimEnd s = rev (strip_class (map rev WhiteSpace) (rev s))"

definition trim :: "string \<Rightarrow> string" where
  "trim s = trimEnd (trimStart s)"

lemma length_strip_class_le: "length (strip_class cls s) \<le> length s"
proof (induction cls s rule: strip_class.induct)
  case (1 cls s)
  show ?case
  proof (cases "class_len cls s = 0")
    case True
    then show ?thesis by (simp add: strip_class.simps)
  next
    case False
    with "1" have "length (strip_class cls (drop (class_len cls s) s)) \<le> length s - class_len cls s"
      by simp
    with False show ?thesis by (subst strip_class.simps) simp
  qed
qed

lemma length_strip_class_less:
  "0 < class_len cls s \<Longrightarrow> length (strip_class cls s) < length s"
proof -
  assume pos: "0 < class_len cls s"
  then have "s \<noteq> []" by (rule class_len_pos_nonempty)
  have "length (strip_class cls (drop (class_len cls s) s)) \<le> length s - class_len cls s"
    using length_strip_class_le [of cls "drop (class_len cls s) s"] by simp
  with pos \<open>s \<noteq> []\<close> show ?thesis
    by (subst strip_class.simps) (cases s, auto)
qed

text \<open>
  \<open>s.split(/\s+/)\<close>: every maximal run of white space separates two pieces; a run at
  the head or at the end leaves an empty piece there.
\<close>

function split_ws :: "string \<Rightarrow> string list" where
  "split_ws s =
     (if s = [] then [[]]
      else if 0 < class_len WhiteSpace s then [] # split_ws (strip_class WhiteSpace s)
      else (case split_ws (tl s) of [] \<Rightarrow> [[hd s]] | t # ts \<Rightarrow> (hd s # t) # ts))"
  by pat_completeness auto
termination
  by (relation "measure length") (auto simp: length_strip_class_less)

declare split_ws.simps [simp del]


section \<open>Percent-encoding\<close>

text \<open>
  \<open>encodeURIComponent\<close> keeps the letters, the digits and \<open>- _ . ! ~ * ' ( )\<close> and
  writes every other byte of the UTF-8 encoding as \<open>%XX\<close> with upper-case digits.
\<close>

definition hex_digit :: "nat \<Rightarrow> char" where
  "hex_digit n = ''0123456789ABCDEF'' ! n"

definition uri_unreserved :: "char \<Rightarrow> bool" where
  "uri_unreserved c =
     (c \<in> set ''ABCDEFGHIJKLMNOPQRSTUVWXYZabcdefghijklmnopqrstuvwxyz0123456789-_.!~*()''
      \<or> c = CHR 0x27)"

definition encode_char :: "char \<Rightarrow> string" where
  "encode_char c =
     (if uri_unreserved c then [c]
      else [CHR ''%'', hex_digit (of_char c div 16), hex_digit (of_char c mod 16)])"

definition encodeURIComponent :: "string \<Rightarrow> string" where
  "encodeURIComponent s = concat (map encode_char s)"

text \<open>
  Percent-decoding, as RFC 3986 has it: every escape \<open>%XX\<close> stands for the byte \<open>XX\<close>
  and every other byte for itself; an escape that is cut short or has a digit that is
  not hexadecimal is an error. It is used on the outputs of \<open>encodeURIComponent\<close> only,
  which hold no \<open>+\<close> and no malformed escape; what a query parser makes of those is
  not modelled.
\<close>

definition hex_val :: "char \<Rightarrow> nat option" where
  "hex_val c =
     (let n = (of_char c :: nat) in
      if 48 \<le> n \<and> n \<le> 57 then Some (n - 48)
      else if 65 \<le> n \<and> n \<le> 70 then Some (n - 55)
      else if 97 \<le> n \<and> n \<le> 102 then Some (n - 87)
      else None)"

fun percent_decode :: "string \<Rightarrow> string option" where
  "percent_decode [] = Some []"
| "percent_decode (c # s) =
     (if c = CHR ''%'' then
        (case s of
           h1 # h2 # r \<Rightarrow>
             (case (hex_val h1, hex_val h2) of
                (Some a, Some b) \<Rightarrow> map_option ((#) (char_of (16 * a + b))) (percent_decode r)
              | _ \<Rightarrow> None)
         | _ \<Rightarrow> None)
      else map_option ((#) c) (percent_decode s))"

text \<open>
  The bytes of a proxied URL are ASCII characters other than the space and the controls;
  no white space character begins or ends with such a byte.
\<close>

definition plain :: "char \<Rightarrow> bool" where
  "plain c = (33 \<le> (of_char c :: nat) \<and> (of_char c :: nat) < 127)"


section \<open>The regular expression of the \<open>url(...)\<close> references\<close>

text \<open>
  Both the inline styles and the style sheets are rewritten with
  \<^verbatim>\<open>text.replace(/url\s*\((['"]?)(.*?)\1\)/gi, (match, quote, path) => ...)\<close>.
  \<open>lazy_until close s\<close> is the lazy \<open>(.*?)\<close> followed by the text \<open>close\<close>: the shortest
  run of characters other than line terminators after which \<open>close\<close> stands; it gives
  the run and what follows \<open>close\<close>.
\<close>

fun lazy_until :: "string \<Rightarrow> string \<Rightarrow> (string \<times> string) option" where
  "lazy_until close [] = (if startsWith [] close then Some ([], []) else None)"
| "lazy_until close (c # r) =
     (if startsWith (c # r) close then Some ([], drop (length close) (c # r))
      else if 0 < class_len LineTerminator (c # r) then None
      else map_option (\<lambda>(p, rest). (c # p, rest)) (lazy_until close r))"

text \<open>
  A match of the expression at the head of \<open>s\<close>: the quote, the path and the text after
  the match. The letters are compared without case; \<open>\s*\<close> takes all the white space,
  since an opening parenthesis must follow it; the quote group first takes a quote
  that stands there and gives it back when no closing quote and parenthesis follow.
\<close>

definition match_url :: "string \<Rightarrow> (string \<times> string \<times> string) option" where
  "match_url s =
     (case s of
        u # r # l # s1 \<Rightarrow>
          if (u = CHR ''u'' \<or> u = CHR ''U'') \<and> (r = CHR ''r'' \<or> r = CHR ''R'')
             \<and> (l = CHR ''l'' \<or> l = CHR ''L'') then
            (case strip_class WhiteSpace s1 of
               b # s2 \<Rightarrow>
                 if b = CHR ''('' then
                   (case s2 of
                      q # s3 \<Rightarrow>
                        if q = CHR 0x27 \<or> q = CHR 0x22 then
                          (case lazy_until [q, CHR '')''] s3 of
                             Some (p, rest) \<Rightarrow> Some ([q], p, rest)
                           | None \<Rightarrow>
                               map_option (\<lambda>(p, rest). ([], p, rest)) (lazy_until '')'' s2))
                        else map_option (\<lambda>(p, rest). ([], p, rest)) (lazy_until '')'' s2)
                    | [] \<Rightarrow> None)
                 else None
             | [] \<Rightarrow> None)
          else None
      | _ \<Rightarrow> None)"

lemma lazy_until_length:
  "lazy_until close s = Some (p, rest) \<Longrightarrow> length rest \<le> length s"
proof (induction s arbitrary: p)
  case Nil
  then show ?case by (simp split: if_splits)
next
  case (Cons c r)
  then show ?case by (fastforce split: if_splits)
qed

lemma match_url_length:
  assumes "match_url s = Some (q, p, rest)"
  shows "length rest < length s"
proof -
  from assms obtain u r l s1 where s: "s = u # r # l # s1"
    by (auto simp: match_url_def split: list.splits)
  from assms s obtain s2 where s2: "strip_class WhiteSpace s1 = CHR ''('' # s2"
    by (auto simp: match_url_def split: list.splits if_splits)
  have "length (strip_class WhiteSpace s1) \<le> length s1" by (rule length_strip_class_le)
  with s2 have l2: "length s2 < length s1" by simp
  from assms s s2 have "(\<exists>p'. lazy_until '')'' s2 = Some (p', rest))
      \<or> (\<exists>q' s3 p'. s2 = q' # s3 \<and> lazy_until [q', CHR '')''] s3 = Some (p', rest))"
    by (auto simp: match_url_def split: list.splits if_splits option.splits)
  then have "length rest \<le> length s2"
    by (auto dest: lazy_until_length)
  with l2 s show ?thesis by simp
qed

text \<open>
  The global replacement: at every position, from left to right, a match is replaced
  by what the callback returns for it and the scan goes on after the match.
\<close>

function replace_url :: "(string \<Rightarrow> string \<Rightarrow> string \<Rightarrow> string) \<Rightarrow> string \<Rightarrow> string" where
  "replace_url f s =
     (if s = [] then []
      else (case match_url s of
              None \<Rightarrow> hd s # replace_url f (tl s)
            | Some (q, p, rest) \<Rightarrow> f (take (length s - length rest) s) q p @ replace_url f rest))"
  by pat_completeness auto
termination
  by (relation "measure (\<lambda>(f, s). length s)") (auto dest: match_url_length)

declare replace_url.simps [simp del]


section \<open>The platform\<close>

text \<open>
  The program runs on library code that is not part of it: the URL parser (\<open>new URL\<close>),
  the case mappings of strings, the HTML parser, serialiser and selector engine of
  cheerio. They are parameters of the model, so that every theorem below holds for
  whatever these functions compute. A \<open>URL\<close> object is known by its \<open>href\<close> and
  \<open>protocol\<close>; a constructor that throws gives \<open>None\<close>.
\<close>

record url =
  href :: string
  protocol :: string

text \<open>An exception, by its \<open>name\<close> and \<open>message\<close>.\<close>

record js_error =
  err_name :: string
  err_message :: string

type_synonym attribs = "(string \<times> string) list"

text \<open>
  The parsed document: an element has its tag name, its attributes in document order
  and its children; every other node (text, comment, doctype) is kept as it is.
\<close>

datatype node = Element string attribs "node list" | NonElement string

text \<open>
  The parser (\<open>cheerio.load\<close>) and the serialiser (\<open>$.html()\<close>) give their result or
  the exception they throw, as they do with a \<open>RangeError\<close> on a document nested too
  deep for their recursion. An exception of the library while it selects or visits
  the elements of a parsed document is determined by what was parsed, and counts here
  as an exception of the parser.
\<close>

record platform =
  URL_new :: "string \<Rightarrow> url option"
  URL_new_base :: "string \<Rightarrow> url \<Rightarrow> url option"
  toUpperCase :: "string \<Rightarrow> string"
  toLowerCase :: "string \<Rightarrow> string"
  attr_selector_equals :: "string \<Rightarrow> string \<Rightarrow> string \<Rightarrow> bool"
  cheerio_load :: "string \<Rightarrow> js_error + node list"
  cheerio_html :: "node list \<Rightarrow> js_error + string"


section \<open>\<open>rewriteHtmlContent\<close>\<close>

definition proxyPrefix :: string where
  "proxyPrefix = ''/proxy?url=''"

text \<open>
  \<^verbatim>\<open>new URL(path, baseUrl).href\<close> and \<^verbatim>\<open>proxyPrefix + encodeURIComponent(absoluteUrl)\<close>,
  the two lines every rewriting site of the program repeats inside its \<open>try\<close>;
  \<open>None\<close> when the constructor throws.
\<close>

definition proxied :: "platform \<Rightarrow> url \<Rightarrow> string \<Rightarrow> string option" where
  "proxied P baseUrl path =
     (case URL_new_base P path baseUrl of
        None \<Rightarrow> None
      | Some absoluteUrl \<Rightarrow> Some (proxyPrefix @ encodeURIComponent (href absoluteUrl)))"

text \<open>
  \<open>$element.attr(name)\<close> gives the value of the attribute, or \<open>undefined\<close>; with the
  empty name it gives the object of all attributes, which is not a string.
  \<open>$element.attr(name, v)\<close> overwrites the attribute where it stands or adds it last.
\<close>

definition attr_get :: "(string \<times> string) list \<Rightarrow> string \<Rightarrow> string option" where
  "attr_get attribs a = (if a = [] then None else map_of attribs a)"

definition attr_set :: "(string \<times> string) list \<Rightarrow> string \<Rightarrow> string \<Rightarrow> (string \<times> string) list" where
  "attr_set attribs a v = AList.update a v attribs"

text \<open>The \<open>switch (tagName)\<close> of the callback.\<close>

definition attribute_of :: "string \<Rightarrow> string" where
  "attribute_of tagName =
     (if tagName = ''a'' then ''href''
      else if tagName = ''form'' then ''action''
      else if tagName \<in> set [''img'', ''script'', ''video'', ''audio'', ''iframe'', ''source'']
        then ''src''
      else if tagName = ''link'' then ''href''
      else [])"

text \<open>
  The value the \<open>method\<close> attribute of a form is set to: in \<open>server.js\<close>
  \<^verbatim>\<open>$element.attr('method') || 'GET'\<close>, in the revision that forwards the client's headers
  \<^verbatim>\<open>$element.attr('method') ? $element.attr('method').toUpperCase() : 'GET'\<close>.
\<close>

definition method_or_GET :: "(string \<times> string) list \<Rightarrow> string" where
  "method_or_GET attribs =
     (case attr_get attribs ''method'' of
        None \<Rightarrow> ''GET''
      | Some m \<Rightarrow> if m = [] then ''GET'' else m)"

definition method_upper_or_GET :: "platform \<Rightarrow> (string \<times> string) list \<Rightarrow> string" where
  "method_upper_or_GET P attribs =
     (case attr_get attribs ''method'' of
        None \<Rightarrow> ''GET''
      | Some m \<Rightarrow> if m = [] then ''GET'' else toUpperCase P m)"

text \<open>
  The rewriting of the URL attribute (\<open>href\<close>, \<open>src\<close> or \<open>action\<close>) of one element; the
  first argument is the value for the \<open>method\<close> of a form. An exception inside the
  \<open>try\<close> leaves the attributes as they were.
\<close>

definition rewrite_url_attribute ::
  "((string \<times> string) list \<Rightarrow> string) \<Rightarrow> platform \<Rightarrow> url \<Rightarrow> string
    \<Rightarrow> (string \<times> string) list \<Rightarrow> (string \<times> string) list" where
  "rewrite_url_attribute form_method P baseUrl tagName attribs =
     (let attribute = attribute_of tagName in
      case attr_get attribs attribute of
        None \<Rightarrow> attribs
      | Some originalPath \<Rightarrow>
          if 0 < length originalPath \<and> \<not> startsWith originalPath ''data:'' then
            (case proxied P baseUrl originalPath of
               None \<Rightarrow> attribs
             | Some proxiedUrl \<Rightarrow>
                 let attribs1 = attr_set attribs attribute proxiedUrl in
                 if tagName = ''form'' then attr_set attribs1 ''method'' (form_method attribs1)
                 else attribs1)
          else attribs)"

text \<open>The rewriting of one candidate of a \<open>srcset\<close>, and of the attribute.\<close>

definition rewrite_srcset_source :: "platform \<Rightarrow> url \<Rightarrow> string \<Rightarrow> string" where
  "rewrite_srcset_source P baseUrl source =
     (let parts = split_ws (trim source);
          path = hd parts;
          descriptor = join '' '' (tl parts) in
      if startsWith path ''data:'' then source
      else (case proxied P baseUrl path of
              None \<Rightarrow> source
            | Some proxiedUrl \<Rightarrow> trim (proxiedUrl @ '' '' @ descriptor)))"

definition rewrite_srcset :: "platform \<Rightarrow> url \<Rightarrow> string \<Rightarrow> string" where
  "rewrite_srcset P baseUrl srcsetAttr =
     join '', '' (map (rewrite_srcset_source P baseUrl) (split_on CHR '','' srcsetAttr))"

definition rewrite_srcset_attribute ::
  "platform \<Rightarrow> url \<Rightarrow> string \<Rightarrow> (string \<times> string) list \<Rightarrow> (string \<times> string) list" where
  "rewrite_srcset_attribute P baseUrl tagName attribs =
     (if tagName = ''img'' \<or> tagName = ''source'' then
        (case attr_get attribs ''srcset'' of
           None \<Rightarrow> attribs
         | Some srcsetAttr \<Rightarrow>
             if 0 < length srcsetAttr
             then attr_set attribs ''srcset'' (rewrite_srcset P baseUrl srcsetAttr)
             else attribs)
      else attribs)"

text \<open>
  The callback of the replacement of \<open>url(...)\<close>, the same in the inline styles and in
  the style sheets.
\<close>

definition url_replacer :: "platform \<Rightarrow> url \<Rightarrow> string \<Rightarrow> string \<Rightarrow> string \<Rightarrow> string" where
  "url_replacer P baseUrl match quote path =
     (if startsWith path ''http'' \<or> startsWith path ''//'' \<or> startsWith path ''data:''
      then match
      else (case proxied P baseUrl path of
              None \<Rightarrow> match
            | Some proxiedUrl \<Rightarrow> ''url('' @ quote @ proxiedUrl @ quote @ '')''))"

definition rewrite_css :: "platform \<Rightarrow> url \<Rightarrow> string \<Rightarrow> string" where
  "rewrite_css P baseUrl css = replace_url (url_replacer P baseUrl) css"

definition rewrite_style_attribute ::
  "platform \<Rightarrow> url \<Rightarrow> (string \<times> string) list \<Rightarrow> (string \<times> string) list" where
  "rewrite_style_attribute P baseUrl attribs =
     (case attr_get attribs ''style'' of
        None \<Rightarrow> attribs
      | Some styleAttr \<Rightarrow>
          if 0 < length styleAttr
          then attr_set attribs ''style'' (rewrite_css P baseUrl styleAttr)
          else attribs)"

text \<open>
  The callback of \<open>$(selectors).each\<close> on one element, in \<open>server.js\<close> and in the
  revision that upper-cases the method of a form and has no \<open>srcset\<close> step.
\<close>

definition rewrite_element ::
  "platform \<Rightarrow> url \<Rightarrow> string \<Rightarrow> (string \<times> string) list \<Rightarrow> (string \<times> string) list" where
  "rewrite_element P baseUrl tagName attribs =
     rewrite_style_attribute P baseUrl
       (rewrite_srcset_attribute P baseUrl tagName
          (rewrite_url_attribute method_or_GET P baseUrl tagName attribs))"

definition rewrite_element_upper ::
  "platform \<Rightarrow> url \<Rightarrow> string \<Rightarrow> (string \<times> string) list \<Rightarrow> (string \<times> string) list" where
  "rewrite_element_upper P baseUrl tagName attribs =
     rewrite_style_attribute P baseUrl
       (rewrite_url_attribute (method_upper_or_GET P) P baseUrl tagName attribs)"

text \<open>
  The selector
  \<^verbatim>\<open>a, form, img, link[rel="stylesheet"], script, [style], video, audio, source, iframe\<close>.
  Whether the selector engine compares the value of \<open>rel\<close> with or without case is
  left to the platform. The elements are selected before the callback changes any of
  them.
\<close>

definition selected :: "platform \<Rightarrow> string \<Rightarrow> (string \<times> string) list \<Rightarrow> bool" where
  "selected P tagName attribs =
     (tagName \<in> set [''a'', ''form'', ''img'', ''script'', ''video'', ''audio'', ''source'', ''iframe'']
      \<or> (tagName = ''link'' \<and>
           (case map_of attribs ''rel'' of
              None \<Rightarrow> False
            | Some v \<Rightarrow> attr_selector_equals P ''rel'' ''stylesheet'' v))
      \<or> map_of attribs ''style'' \<noteq> None)"

text \<open>
  The traversal \<open>$(selectors).each(callback)\<close>: the callback \<open>each\<close> runs on every
  selected element of the tree, whatever its depth.
\<close>

fun rewrite_node :: "(string \<Rightarrow> attribs \<Rightarrow> attribs) \<Rightarrow> platform \<Rightarrow> node \<Rightarrow> node" where
  "rewrite_node each P (Element tagName attribs children) =
     Element tagName
       (if selected P tagName attribs then each tagName attribs else attribs)
       (map (rewrite_node each P) children)"
| "rewrite_node each P (NonElement t) = NonElement t"

text \<open>\<open>$('base').remove()\<close>: every element named \<open>base\<close> leaves the tree, with what it holds.\<close>

fun remove_elements :: "string \<Rightarrow> node \<Rightarrow> node list" where
  "remove_elements t (Element tagName attribs children) =
     (if tagName = t then []
      else [Element tagName attribs (concat (map (remove_elements t) children))])"
| "remove_elements t (NonElement x) = [NonElement x]"

definition rewrite_document ::
  "(string \<Rightarrow> attribs \<Rightarrow> attribs) \<Rightarrow> platform \<Rightarrow> node list \<Rightarrow> node list" where
  "rewrite_document each P nodes =
     concat (map (remove_elements ''base'') (map (rewrite_node each P) nodes))"

definition invalid_url_error :: js_error where
  "invalid_url_error = \<lparr>err_name = ''TypeError'', err_message = ''Invalid URL''\<rparr>"

text \<open>
  The body of \<open>rewriteHtmlContent(html, originalUrl)\<close>, which is the same in the
  revisions of the file but for the callback: the document is parsed, the URL of the
  page is parsed, the callback runs on the selected elements, the \<open>base\<close> elements are
  removed and the tree is serialised. The result is the text or the exception thrown.
\<close>

definition transform_html ::
  "(platform \<Rightarrow> url \<Rightarrow> string \<Rightarrow> attribs \<Rightarrow> attribs) \<Rightarrow> platform \<Rightarrow> string \<Rightarrow> string
    \<Rightarrow> js_error + string" where
  "transform_html each P html originalUrl =
     (case cheerio_load P html of
        Inl e \<Rightarrow> Inl e
      | Inr nodes \<Rightarrow>
          (case URL_new P originalUrl of
             None \<Rightarrow> Inl invalid_url_error
           | Some baseUrl \<Rightarrow> cheerio_html P (rewrite_document (each P baseUrl) P nodes)))"

text \<open>\<open>rewriteHtmlContent\<close> of \<open>server.js\<close>, and of the revision that upper-cases the method.\<close>

definition rewriteHtmlContent :: "platform \<Rightarrow> string \<Rightarrow> string \<Rightarrow> js_error + string" where
  "rewriteHtmlContent P html originalUrl = transform_html rewrite_element P html originalUrl"

definition rewriteHtmlContent_upper :: "platform \<Rightarrow> string \<Rightarrow> string \<Rightarrow> js_error + string" where
  "rewriteHtmlContent_upper P html originalUrl =
     transform_html rewrite_element_upper P html originalUrl"

text \<open>
  The elements of a tree in document order, each with its tag name and its attributes;
  and the elements of a parsed document that are no \<open>base\<close> element and stand in none.
\<close>

fun elements :: "node \<Rightarrow> (string \<times> attribs) list" where
  "elements (Element tagName attribs children) = (tagName, attribs) # concat (map elements children)"
| "elements (NonElement x) = []"

definition document_elements :: "node list \<Rightarrow> (string \<times> attribs) list" where
  "document_elements nodes = concat (map elements nodes)"

definition kept_elements :: "node list \<Rightarrow> (string \<times> attribs) list" where
  "kept_elements nodes = document_elements (concat (map (remove_elements ''base'') nodes))"

text \<open>Whether an element named \<open>t\<close> stands in the tree below a node, the node included.\<close>

fun has_element :: "string \<Rightarrow> node \<Rightarrow> bool" where
  "has_element t (Element tagName attribs children) =
     (tagName = t \<or> list_ex (has_element t) children)"
| "has_element t (NonElement x) = False"


section \<open>The handler of \<open>/proxy\<close>\<close>

text \<open>
  What the handler reads of the request: the method, the \<open>url\<close> query value (absent
  when the parameter is), of the parsed body the number of its keys (absent when there
  is no body object) and its \<open>JSON.stringify\<close>, and the \<open>content-type\<close> header.
\<close>

record request =
  req_method :: string
  req_query_url :: "string option"
  req_body_keys :: "nat option"
  req_body_json :: string
  req_content_type :: "string option"

record fetch_options =
  fo_method :: string
  fo_timeout :: nat
  fo_headers :: "(string \<times> string) list"
  fo_body :: "string option"

text \<open>
  The response of the upstream server: its status, its headers as
  \<open>headers.forEach\<close> visits them, and what the handler gets when it reads the body
  (\<open>arrayBuffer()\<close> and \<open>toString()\<close>, or \<open>text()\<close>): the content, or the exception of a
  read that fails. \<open>forEach\<close> visits a name once, with the values of its headers
  joined, but for \<open>set-cookie\<close>, which it visits once for every header of that name.
\<close>

record upstream_response =
  up_status :: nat
  up_headers :: "(string \<times> string) list"
  up_body :: "js_error + string"

text \<open>The messages of the error objects, which are Japanese sentences in the program.\<close>

datatype error_message =
    MissingUrlParameter
  | InvalidUrlFormat
  | ProtocolNotAllowed
  | AccessFailed string
  | AccessTimedOut string

datatype payload = NoPayload | ErrorObject error_message | Content string

text \<open>
  The outbound response: the status, the headers the handler has set and what was
  sent. \<open>res.setHeader(name, value)\<close> keeps the name and the value under the name in
  lower case and replaces what was kept there, which is what \<open>getHeader\<close> reads. The
  headers that Express and Node add by themselves when the response is sent are not
  part of the model.
\<close>

record server_response =
  statusCode :: nat
  out_headers :: "(string \<times> string \<times> string) list"
  sent :: payload

definition setHeader :: "platform \<Rightarrow> server_response \<Rightarrow> string \<Rightarrow> string \<Rightarrow> server_response" where
  "setHeader P res name v =
     res\<lparr>out_headers := AList.update (toLowerCase P name) (name, v) (out_headers res)\<rparr>"

definition getHeader :: "platform \<Rightarrow> server_response \<Rightarrow> string \<Rightarrow> string option" where
  "getHeader P res name = map_option snd (map_of (out_headers res) (toLowerCase P name))"

definition send_error :: "server_response \<Rightarrow> nat \<Rightarrow> error_message \<Rightarrow> server_response" where
  "send_error res code e = res\<lparr>statusCode := code, sent := ErrorObject e\<rparr>"

definition end_with :: "server_response \<Rightarrow> string \<Rightarrow> server_response" where
  "end_with res content = res\<lparr>sent := Content content\<rparr>"

definition excluded_headers :: "string list" where
  "excluded_headers = [''connection'', ''content-encoding'', ''transfer-encoding'', ''content-length'']"

text \<open>
  \<open>response.headers.get(name)\<close>, which looks the name up without case, and the
  \<open>response.headers.forEach\<close> of the handler.
\<close>

definition headers_get :: "platform \<Rightarrow> (string \<times> string) list \<Rightarrow> string \<Rightarrow> string option" where
  "headers_get P hs name = map_of (map (\<lambda>(n, v). (toLowerCase P n, v)) hs) (toLowerCase P name)"

definition relay_headers ::
  "platform \<Rightarrow> (string \<times> string) list \<Rightarrow> server_response \<Rightarrow> server_response" where
  "relay_headers P hs res =
     foldl (\<lambda>r (name, v).
              if toLowerCase P name \<in> set excluded_headers then r else setHeader P r name v)
       res hs"

text \<open>The \<open>catch\<close> block of the handler.\<close>

definition catch_error :: "string \<Rightarrow> server_response \<Rightarrow> js_error \<Rightarrow> server_response" where
  "catch_error targetUrl res error =
     (if err_name error = ''TimeoutError'' \<or> err_name error = ''AbortError''
      then send_error res 504 (AccessTimedOut targetUrl)
      else send_error res 500 (AccessFailed (err_message error)))"

definition user_agent :: string where
  "user_agent = ''Mozilla/5.0 (Windows NT 10.0; Win64; x64) AppleWebKit/537.36 (KHTML, like Gecko) Chrome/120.0.0.0 Safari/537.36''"

definition make_fetch_options :: "request \<Rightarrow> fetch_options" where
  "make_fetch_options req =
     (let has_body = (case req_body_keys req of None \<Rightarrow> False | Some n \<Rightarrow> 0 < n);
          has_type = (case req_content_type req of None \<Rightarrow> False | Some t \<Rightarrow> t \<noteq> [])
      in \<lparr>fo_method = req_method req,
          fo_timeout = 15000,
          fo_headers = [(''User-Agent'', user_agent)] @
            (if has_body \<and> has_type then [(''Content-Type'', the (req_content_type req))] else []),
          fo_body = (if has_body then Some (req_body_json req) else None)\<rparr>)"

text \<open>\<open>contentType && contentType.includes(t)\<close>.\<close>

definition content_type_includes :: "platform \<Rightarrow> upstream_response \<Rightarrow> string \<Rightarrow> bool" where
  "content_type_includes P response t =
     (case headers_get P (up_headers response) ''content-type'' of
        None \<Rightarrow> False
      | Some contentType \<Rightarrow> str_includes contentType t)"

text \<open>
  What the handler does with the response of a fetch that succeeded: the \<open>try\<close> block
  after the \<open>await fetch\<close>.
\<close>

definition relay_response ::
  "platform \<Rightarrow> string \<Rightarrow> upstream_response \<Rightarrow> server_response \<Rightarrow> server_response" where
  "relay_response P targetUrl response res =
     (let res1 = res\<lparr>statusCode := up_status response\<rparr>;
          res2 = relay_headers P (up_headers response) res1
      in case up_body response of
           Inl e \<Rightarrow> catch_error targetUrl res2 e
         | Inr content \<Rightarrow>
             if content_type_includes P response ''text/html'' then
               (case rewriteHtmlContent P content targetUrl of
                  Inl e \<Rightarrow> catch_error targetUrl res2 e
                | Inr html \<Rightarrow> end_with res2 html)
             else if content_type_includes P response ''text/css'' then
               (case URL_new P targetUrl of
                  None \<Rightarrow> catch_error targetUrl res2 invalid_url_error
                | Some baseUrl \<Rightarrow> end_with res2 (rewrite_css P baseUrl content))
             else end_with res2 content)"

text \<open>
  The handler. The upstream server is the function \<open>fetch\<close>, which gives the response or
  the exception the call rejects with. The result is the outbound response and the
  list of the calls of \<open>fetch\<close> the handler made.
\<close>

definition handler ::
  "platform \<Rightarrow> (string \<Rightarrow> fetch_options \<Rightarrow> js_error + upstream_response) \<Rightarrow> request
    \<Rightarrow> server_response \<Rightarrow> server_response \<times> (string \<times> fetch_options) list" where
  "handler P fetch req res =
     (case req_query_url req of
        None \<Rightarrow> (send_error res 400 MissingUrlParameter, [])
      | Some targetUrl \<Rightarrow>
          if targetUrl = [] then (send_error res 400 MissingUrlParameter, [])
          else (case URL_new P targetUrl of
                  None \<Rightarrow> (send_error res 400 InvalidUrlFormat, [])
                | Some urlObj \<Rightarrow>
                    if protocol urlObj \<noteq> ''http:'' \<and> protocol urlObj \<noteq> ''https:''
                    then (send_error res 403 ProtocolNotAllowed, [])
                    else
                      (let fetchOptions = make_fetch_options req in
                       (case fetch targetUrl fetchOptions of
                          Inl e \<Rightarrow> catch_error targetUrl res e
                        | Inr response \<Rightarrow> relay_response P targetUrl response res,
                        [(targetUrl, fetchOptions)]))))"

text \<open>
  The three checks of the handler before the \<open>try\<close> block: the request is rejected when
  the \<open>url\<close> value is absent or empty, when the URL constructor throws on it, or when
  the protocol of the URL is neither \<open>http:\<close> nor \<open>https:\<close>.
\<close>

definition rejected :: "platform \<Rightarrow> request \<Rightarrow> bool" where
  "rejected P req =
     (case req_query_url req of
        None \<Rightarrow> True
      | Some targetUrl \<Rightarrow>
          targetUrl = [] \<or>
          (case URL_new P targetUrl of
             None \<Rightarrow> True
           | Some urlObj \<Rightarrow> protocol urlObj \<noteq> ''http:'' \<and> protocol urlObj \<noteq> ''https:''))"


section \<open>A platform for the examples\<close>

text \<open>
  The examples below run the model on this platform. Its URL constructor knows the
  references and the bases it is asked about in the examples, with the results the URL
  Standard gives for them; on \<open>not a url\<close> without a base, and on \<open>http://[\<close> with
  any base, the constructor of the Standard throws as this one does. Its case mappings
  are those of ASCII strings. Its parser and its serialiser know the documents of the
  examples, which are written the way the serialiser writes a document, so that each
  is the serialisation of its own tree.
\<close>

definition http_url :: "string \<Rightarrow> url" where
  "http_url h = \<lparr>href = h, protocol = ''http:''\<rparr>"

definition example_URLs :: "(string \<times> url) list" where
  "example_URLs =
     [(''http://x.test/page'', http_url ''http://x.test/page''),
      (''http://x.test/css/a.css'', http_url ''http://x.test/css/a.css''),
      (''ftp://x.test/f'', \<lparr>href = ''ftp://x.test/f'', protocol = ''ftp:''\<rparr>)]"

definition example_references :: "((string \<times> string) \<times> url) list" where
  "example_references =
     [((''/a.png'', ''http://x.test/page''), http_url ''http://x.test/a.png''),
      ((''b.png'', ''http://x.test/page''), http_url ''http://x.test/b.png''),
      ((''AAA'', ''http://x.test/page''), http_url ''http://x.test/AAA''),
      ((''/s'', ''http://x.test/page''), http_url ''http://x.test/s''),
      (([], ''http://x.test/page''), http_url ''http://x.test/page''),
      (([], ''http://x.test/css/a.css''), http_url ''http://x.test/css/a.css''),
      ((''httpdocs/a.png'', ''http://x.test/page''), http_url ''http://x.test/httpdocs/a.png''),
      ((''../img/bg.png'', ''http://x.test/css/a.css''), http_url ''http://x.test/img/bg.png''),
      ((''http://y.test/z'', ''http://x.test/page''), http_url ''http://y.test/z''),
      ((''/proxy?url=http%3A%2F%2Fy.test%2Fz'', ''http://x.test/page''),
         http_url ''http://x.test/proxy?url=http%3A%2F%2Fy.test%2Fz'')]"

text \<open>
  A page with a \<open>base\<close> element, a \<open>link\<close> that is no style sheet, a link to another
  site, a link with an empty \<open>href\<close>, two forms, an image with a \<open>srcset\<close> and a
  paragraph with an inline style; its tree; and the tree and the text of the page as
  \<open>server.js\<close> rewrites it, and as the revision that upper-cases the method does, for
  the address \<open>http://x.test/page\<close>.
\<close>

definition page_html :: string where
  \<open>page_html =
     ''<html><head><base href="http://y.test/"><link rel="icon" href="/i.ico"></head><body>''
     @ ''<a href="http://y.test/z">z</a><a href="">top</a>''
     @ ''<form action="/s" method="post"></form><form action="/s"></form>''
     @ ''<img src="/a.png" srcset="/a.png 1x, b.png   2x,data:x 3x">''
     @ ''<p style="background:url(http://y.test/z)">p</p></body></html>''\<close>

definition page_nodes :: "node list" where
  "page_nodes =
     [Element ''html'' []
        [Element ''head'' []
           [Element ''base'' [(''href'', ''http://y.test/'')] [],
            Element ''link'' [(''rel'', ''icon''), (''href'', ''/i.ico'')] []],
         Element ''body'' []
           [Element ''a'' [(''href'', ''http://y.test/z'')] [NonElement ''z''],
            Element ''a'' [(''href'', [])] [NonElement ''top''],
            Element ''form'' [(''action'', ''/s''), (''method'', ''post'')] [],
            Element ''form'' [(''action'', ''/s'')] [],
            Element ''img'' [(''src'', ''/a.png''), (''srcset'', ''/a.png 1x, b.png   2x,data:x 3x'')] [],
            Element ''p'' [(''style'', ''background:url(http://y.test/z)'')] [NonElement ''p'']]]]"

definition rewritten_page_nodes :: "node list" where
  "rewritten_page_nodes =
     [Element ''html'' []
        [Element ''head'' []
           [Element ''link'' [(''rel'', ''icon''), (''href'', ''/i.ico'')] []],
         Element ''body'' []
           [Element ''a'' [(''href'', ''/proxy?url=http%3A%2F%2Fy.test%2Fz'')] [NonElement ''z''],
            Element ''a'' [(''href'', [])] [NonElement ''top''],
            Element ''form'' [(''action'', ''/proxy?url=http%3A%2F%2Fx.test%2Fs''), (''method'', ''post'')] [],
            Element ''form'' [(''action'', ''/proxy?url=http%3A%2F%2Fx.test%2Fs''), (''method'', ''GET'')] [],
            Element ''img''
              [(''src'', ''/proxy?url=http%3A%2F%2Fx.test%2Fa.png''),
               (''srcset'', ''/proxy?url=http%3A%2F%2Fx.test%2Fa.png 1x, ''
                            @ ''/proxy?url=http%3A%2F%2Fx.test%2Fb.png 2x, data:x 3x'')] [],
            Element ''p'' [(''style'', ''background:url(http://y.test/z)'')] [NonElement ''p'']]]]"

definition rewritten_page_html :: string where
  \<open>rewritten_page_html =
     ''<html><head><link rel="icon" href="/i.ico"></head><body>''
     @ ''<a href="/proxy?url=http%3A%2F%2Fy.test%2Fz">z</a><a href="">top</a>''
     @ ''<form action="/proxy?url=http%3A%2F%2Fx.test%2Fs" method="post"></form>''
     @ ''<form action="/proxy?url=http%3A%2F%2Fx.test%2Fs" method="GET"></form>''
     @ ''<img src="/proxy?url=http%3A%2F%2Fx.test%2Fa.png" srcset="''
     @ ''/proxy?url=http%3A%2F%2Fx.test%2Fa.png 1x, /proxy?url=http%3A%2F%2Fx.test%2Fb.png 2x, data:x 3x">''
     @ ''<p style="background:url(http://y.test/z)">p</p></body></html>''\<close>

definition rewritten_page_nodes_upper :: "node list" where
  "rewritten_page_nodes_upper =
     [Element ''html'' []
        [Element ''head'' []
           [Element ''link'' [(''rel'', ''icon''), (''href'', ''/i.ico'')] []],
         Element ''body'' []
           [Element ''a'' [(''href'', ''/proxy?url=http%3A%2F%2Fy.test%2Fz'')] [NonElement ''z''],
            Element ''a'' [(''href'', [])] [NonElement ''top''],
            Element ''form'' [(''action'', ''/proxy?url=http%3A%2F%2Fx.test%2Fs''), (''method'', ''POST'')] [],
            Element ''form'' [(''action'', ''/proxy?url=http%3A%2F%2Fx.test%2Fs''), (''method'', ''GET'')] [],
            Element ''img''
              [(''src'', ''/proxy?url=http%3A%2F%2Fx.test%2Fa.png''),
               (''srcset'', ''/a.png 1x, b.png   2x,data:x 3x'')] [],
            Element ''p'' [(''style'', ''background:url(http://y.test/z)'')] [NonElement ''p'']]]]"

definition rewritten_page_html_upper :: string where
  \<open>rewritten_page_html_upper =
     ''<html><head><link rel="icon" href="/i.ico"></head><body>''
     @ ''<a href="/proxy?url=http%3A%2F%2Fy.test%2Fz">z</a><a href="">top</a>''
     @ ''<form action="/proxy?url=http%3A%2F%2Fx.test%2Fs" method="POST"></form>''
     @ ''<form action="/proxy?url=http%3A%2F%2Fx.test%2Fs" method="GET"></form>''
     @ ''<img src="/proxy?url=http%3A%2F%2Fx.test%2Fa.png" srcset="/a.png 1x, b.png   2x,data:x 3x">''
     @ ''<p style="background:url(http://y.test/z)">p</p></body></html>''\<close>

text \<open>
  A page with one link to another site; the page rewritten once, which is a document
  of its own when it is fetched through the proxy again; and the page rewritten twice.
\<close>

definition link_html :: string where
  \<open>link_html = ''<html><head></head><body><a href="http://y.test/z">z</a></body></html>''\<close>

definition link_nodes :: "node list" where
  "link_nodes =
     [Element ''html'' []
        [Element ''head'' [] [],
         Element ''body'' [] [Element ''a'' [(''href'', ''http://y.test/z'')] [NonElement ''z'']]]]"

definition rewritten_link_nodes :: "node list" where
  "rewritten_link_nodes =
     [Element ''html'' []
        [Element ''head'' [] [],
         Element ''body'' []
           [Element ''a'' [(''href'', ''/proxy?url=http%3A%2F%2Fy.test%2Fz'')] [NonElement ''z'']]]]"

definition rewritten_link_html :: string where
  \<open>rewritten_link_html =
     ''<html><head></head><body><a href="/proxy?url=http%3A%2F%2Fy.test%2Fz">z</a></body></html>''\<close>

definition twice_rewritten_link_nodes :: "node list" where
  "twice_rewritten_link_nodes =
     [Element ''html'' []
        [Element ''head'' [] [],
         Element ''body'' []
           [Element ''a''
              [(''href'', ''/proxy?url=http%3A%2F%2Fx.test%2Fproxy%3Furl%3Dhttp%253A%252F%252Fy.test%252Fz'')]
              [NonElement ''z'']]]]"

definition twice_rewritten_link_html :: string where
  \<open>twice_rewritten_link_html =
     ''<html><head></head><body>''
     @ ''<a href="/proxy?url=http%3A%2F%2Fx.test%2Fproxy%3Furl%3Dhttp%253A%252F%252Fy.test%252Fz">z</a>''
     @ ''</body></html>''\<close>

text \<open>
  A page whose \<open>noscript\<close> element, in the head, holds the markup of a \<open>base\<close> element.
  The parser reads what a \<open>noscript\<close> element holds as text, as a browser that runs
  scripts does, and the serialiser writes that text as it is.
\<close>

definition noscript_html :: string where
  \<open>noscript_html =
     ''<html><head><noscript><base href="http://y.test/"></noscript></head><body></body></html>''\<close>

definition noscript_nodes :: "node list" where
  \<open>noscript_nodes =
     [Element ''html'' []
        [Element ''head'' [] [Element ''noscript'' [] [NonElement ''<base href="http://y.test/">'']],
         Element ''body'' [] []]]\<close>

text \<open>A page with an image whose \<open>srcset\<close> holds a candidate that is no URL.\<close>

definition srcset_html :: string where
  \<open>srcset_html = ''<html><head></head><body><img srcset="http://[ 1x"></body></html>''\<close>

definition srcset_nodes :: "node list" where
  "srcset_nodes =
     [Element ''html'' []
        [Element ''head'' [] [],
         Element ''body'' [] [Element ''img'' [(''srcset'', ''http://[ 1x'')] []]]]"

definition example_documents :: "(string \<times> node list) list" where
  "example_documents =
     [(page_html, page_nodes),
      (link_html, link_nodes),
      (rewritten_link_html, rewritten_link_nodes),
      (noscript_html, noscript_nodes),
      (srcset_html, srcset_nodes)]"

definition example_serialisations :: "(node list \<times> string) list" where
  "example_serialisations =
     [(rewritten_page_nodes, rewritten_page_html),
      (rewritten_page_nodes_upper, rewritten_page_html_upper),
      (rewritten_link_nodes, rewritten_link_html),
      (twice_rewritten_link_nodes, twice_rewritten_link_html),
      (noscript_nodes, noscript_html),
      (srcset_nodes, srcset_html)]"

definition ascii_upper :: "char \<Rightarrow> char" where
  "ascii_upper c =
     (if 97 \<le> (of_char c :: nat) \<and> (of_char c :: nat) \<le> 122 then char_of (of_char c - 32 :: nat) else c)"

definition ascii_lower :: "char \<Rightarrow> char" where
  "ascii_lower c =
     (if 65 \<le> (of_char c :: nat) \<and> (of_char c :: nat) \<le> 90 then char_of (of_char c + 32 :: nat) else c)"

definition example_platform :: platform where
  "example_platform =
     \<lparr>URL_new = map_of example_URLs,
      URL_new_base = (\<lambda>path baseUrl. map_of example_references (path, href baseUrl)),
      toUpperCase = map ascii_upper,
      toLowerCase = map ascii_lower,
      attr_selector_equals = (\<lambda>name expected actual. map ascii_lower actual = expected),
      cheerio_load = (\<lambda>html. case map_of example_documents html of
                               Some nodes \<Rightarrow> Inr nodes | None \<Rightarrow> undefined),
      cheerio_html = (\<lambda>nodes. case map_of example_serialisations nodes of
                               Some html \<Rightarrow> Inr html | None \<Rightarrow> undefined)\<rparr>"

definition page_url :: url where
  "page_url = http_url ''http://x.test/page''"

definition css_url :: url where
  "css_url = http_url ''http://x.test/css/a.css''"

definition initial_response :: server_response where
  "initial_response = \<lparr>statusCode = 200, out_headers = [], sent = NoPayload\<rparr>"

definition get_request :: "string \<Rightarrow> request" where
  "get_request u =
     \<lparr>req_method = ''GET'', req_query_url = Some u, req_body_keys = Some 0,
      req_body_json = ''{}'', req_content_type = None\<rparr>"

text \<open>An upstream server that answers every request with the status 200 and the given headers and body.\<close>

definition serves ::
  "(string \<times> string) list \<Rightarrow> string \<Rightarrow> string \<Rightarrow> fetch_options \<Rightarrow> js_error + upstream_response" where
  "serves hs content u opts = Inr \<lparr>up_status = 200, up_headers = hs, up_body = Inr content\<rparr>"

text \<open>An upstream server that cannot be reached: \<open>fetch\<close> rejects with the given exception.\<close>

definition fails :: "js_error \<Rightarrow> string \<Rightarrow> fetch_options \<Rightarrow> js_error + upstream_response" where
  "fails e u opts = Inl e"

text \<open>An upstream server that answers every request with the given status, headers and body.\<close>

definition answers ::
  "nat \<Rightarrow> (string \<times> string) list \<Rightarrow> string \<Rightarrow> string \<Rightarrow> fetch_options
    \<Rightarrow> js_error + upstream_response" where
  "answers status hs content u opts =
     Inr \<lparr>up_status = status, up_headers = hs, up_body = Inr content\<rparr>"

text \<open>
  The platform of the examples with a serialiser that runs out of stack, as the
  serialiser of the library does on a tree that is nested deep enough.
\<close>

definition overflowing_platform :: platform where
  "overflowing_platform =
     example_platform
       \<lparr>cheerio_html := (\<lambda>nodes. Inl \<lparr>err_name = ''RangeError'',
                                         err_message = ''Maximum call stack size exceeded''\<rparr>)\<rparr>"


section \<open>Properties of the string functions\<close>

lemma startsWith_Nil [simp]: "startsWith [] p = (p = [])"
  by (auto simp: startsWith_def)

lemma startsWith_Cons [simp]:
  "startsWith (c # s) (d # p) = (c = d \<and> startsWith s p)"
  by (auto simp: startsWith_def)

lemma startsWith_empty [simp]: "startsWith s []"
  by (simp add: startsWith_def)

lemma startsWith_append_literal [simp]:
  "startsWith (p @ s) p"
  by (simp add: startsWith_def)

lemma startsWith_http:
  assumes "startsWith R ''http://'' \<or> startsWith R ''https://''"
  shows "R \<noteq> []" and "\<not> startsWith R ''data:''" and "startsWith R ''http''"
  using assms by (cases R; cases "tl R"; cases "tl (tl R)"; cases "tl (tl (tl R))"; auto)+

lemma startsWith_other_byte:
  "\<not> startsWith (a @ b) w \<Longrightarrow> c \<notin> set w \<Longrightarrow> \<not> startsWith (a @ c # z) w"
proof (induction a arbitrary: w)
  case Nil
  then show ?case by (cases w) auto
next
  case (Cons x a)
  then show ?case by (cases w) auto
qed

lemma startsWith_other_byte_tl:
  assumes "a \<noteq> []" and "\<not> startsWith (a @ b) w" and "c \<notin> set (tl w)"
  shows "\<not> startsWith (a @ c # z) w"
proof (cases w)
  case Nil
  with assms(2) show ?thesis by simp
next
  case (Cons w1 w')
  obtain a1 a' where a: "a = a1 # a'" using assms(1) by (cases a) auto
  show ?thesis
  proof (cases "a1 = w1")
    case True
    with assms(2) a Cons have "\<not> startsWith (a' @ b) w'" by simp
    moreover from assms(3) Cons have "c \<notin> set w'" by simp
    ultimately have "\<not> startsWith (a' @ c # z) w'" by (rule startsWith_other_byte)
    with a Cons show ?thesis by simp
  next
    case False
    with a Cons show ?thesis by simp
  qed
qed

lemma join_last:
  "ds \<noteq> [] \<Longrightarrow> \<exists>d0. join sep ds = d0 @ last ds \<and> (d0 = [] \<or> (\<exists>d1. d0 = d1 @ sep))"
proof (induction sep ds rule: join.induct)
  case (1 sep)
  then show ?case by simp
next
  case (2 sep x)
  then show ?case by simp
next
  case (3 sep x y ys)
  then obtain d0 where d0: "join sep (y # ys) = d0 @ last (y # ys)"
    "d0 = [] \<or> (\<exists>d1. d0 = d1 @ sep)" by auto
  then have "join sep (x # y # ys) = (x @ sep @ d0) @ last (x # y # ys)" by simp
  moreover from d0(2) have "\<exists>d1. x @ sep @ d0 = d1 @ sep"
  proof
    assume "d0 = []"
    then show ?thesis by simp
  next
    assume "\<exists>d1. d0 = d1 @ sep"
    then obtain d1 where "d0 = d1 @ sep" ..
    then have "x @ sep @ d0 = (x @ sep @ d1) @ sep" by simp
    then show ?thesis ..
  qed
  ultimately show ?case by blast
qed


text \<open>The search of \<open>includes\<close>, one place after the other.\<close>

lemma list_ex_map_conv: "list_ex Q (map f xs) = list_ex (\<lambda>x. Q (f x)) xs"
  by (induction xs) simp_all

lemma str_includes_Nil: "str_includes [] sub = (sub = [])"
  by (simp add: str_includes_def)

lemma str_includes_Cons:
  "str_includes (c # s) sub = (startsWith (c # s) sub \<or> str_includes s sub)"
proof -
  have e: "[0..<Suc (Suc (length s))] = 0 # map Suc [0..<Suc (length s)]"
    unfolding map_Suc_upt by (rule upt_conv_Cons) simp
  show ?thesis
    unfolding str_includes_def length_Cons e
    by (simp add: list_ex_map_conv del: upt_Suc)
qed


section \<open>Properties of the white space functions\<close>

lemma class_len_0_iff:
  assumes "[] \<notin> set cls"
  shows "class_len cls s = 0 \<longleftrightarrow> (\<forall>w \<in> set cls. \<not> startsWith s w)"
proof (cases "find (startsWith s) cls")
  case None
  then have "\<forall>w \<in> set cls. \<not> startsWith s w" by (simp add: find_None_iff)
  with None show ?thesis by (simp add: class_len_def)
next
  case (Some w)
  then have "w \<in> set cls" "startsWith s w"
    by (auto simp: find_Some_iff in_set_conv_nth)
  with assms Some show ?thesis by (auto simp: class_len_def)
qed

lemma class_len_pos_split:
  assumes "0 < class_len cls s"
  shows "\<exists>w \<in> set cls. w \<noteq> [] \<and> s = w @ drop (class_len cls s) s"
proof -
  from assms obtain w where f: "find (startsWith s) cls = Some w"
    by (auto simp: class_len_def split: option.splits)
  then have w: "w \<in> set cls" "startsWith s w"
    by (auto simp: find_Some_iff in_set_conv_nth)
  from f have n: "class_len cls s = length w" by (simp add: class_len_def)
  from w(2) have "s = w @ drop (length w) s"
    by (metis startsWith_def append_take_drop_id)
  with w(1) n assms show ?thesis by auto
qed

lemma strip_class_id: "class_len cls s = 0 \<Longrightarrow> strip_class cls s = s"
  by (simp add: strip_class.simps)

lemma strip_class_step:
  "0 < class_len cls s \<Longrightarrow> strip_class cls s = strip_class cls (drop (class_len cls s) s)"
  by (subst strip_class.simps) simp

lemma class_len_strip_class [simp]: "class_len cls (strip_class cls s) = 0"
proof (induction cls s rule: strip_class.induct)
  case (1 cls s)
  then show ?case
    by (cases "class_len cls s = 0") (simp_all add: strip_class_id strip_class_step)
qed

lemma strip_class_suffix: "\<exists>r. s = r @ strip_class cls s"
proof (induction cls s rule: strip_class.induct)
  case (1 cls s)
  show ?case
  proof (cases "class_len cls s = 0")
    case True
    then show ?thesis by (simp add: strip_class_id)
  next
    case False
    with "1" obtain r where r: "drop (class_len cls s) s = r @ strip_class cls (drop (class_len cls s) s)"
      by blast
    have "s = take (class_len cls s) s @ drop (class_len cls s) s" by simp
    with r have "s = (take (class_len cls s) s @ r) @ strip_class cls (drop (class_len cls s) s)"
      by (metis append.assoc)
    moreover from False have "strip_class cls s = strip_class cls (drop (class_len cls s) s)"
      by (simp add: strip_class_step)
    ultimately show ?thesis by metis
  qed
qed

lemma strip_class_Nil_ends:
  assumes "strip_class cls s = []" and "s \<noteq> []"
  shows "\<exists>y w. w \<in> set cls \<and> s = y @ w"
  using assms
proof (induction cls s rule: strip_class.induct)
  case (1 cls s)
  from "1.prems" have pos: "0 < class_len cls s"
    by (cases "class_len cls s = 0") (simp_all add: strip_class_id)
  then obtain w where w: "w \<in> set cls" "s = w @ drop (class_len cls s) s"
    using class_len_pos_split by blast
  from pos "1.prems" have st: "strip_class cls (drop (class_len cls s) s) = []"
    by (simp add: strip_class_step)
  show ?case
  proof (cases "drop (class_len cls s) s = []")
    case True
    with w have "s = [] @ w" by simp
    with w(1) show ?thesis by blast
  next
    case False
    with "1.IH" pos st obtain y w' where w': "w' \<in> set cls" "drop (class_len cls s) s = y @ w'"
      by auto
    with w(2) have "s = (w @ y) @ w'" by (metis append.assoc)
    with w'(1) show ?thesis by blast
  qed
qed

lemma split_ws_Nil [simp]: "split_ws [] = [[]]"
  by (simp add: split_ws.simps)

lemma split_ws_space:
  "s \<noteq> [] \<Longrightarrow> 0 < class_len WhiteSpace s \<Longrightarrow>
   split_ws s = [] # split_ws (strip_class WhiteSpace s)"
  by (subst split_ws.simps) simp

lemma split_ws_other:
  "s \<noteq> [] \<Longrightarrow> class_len WhiteSpace s = 0 \<Longrightarrow>
   split_ws s = (case split_ws (tl s) of [] \<Rightarrow> [[hd s]] | t # ts \<Rightarrow> (hd s # t) # ts)"
  by (subst split_ws.simps) simp

lemma split_ws_not_Nil [simp]: "split_ws s \<noteq> []"
  by (subst split_ws.simps) (simp split: list.splits)

lemma split_ws_single: "split_ws s = [t] \<Longrightarrow> t = s"
proof (induction s arbitrary: t rule: split_ws.induct)
  case (1 s)
  show ?case
  proof (cases "s = []")
    case True
    with "1.prems" show ?thesis by simp
  next
    case ne: False
    show ?thesis
    proof (cases "0 < class_len WhiteSpace s")
      case True
      with ne "1.prems" show ?thesis by (simp add: split_ws_space)
    next
      case False
      obtain t' ts where tt: "split_ws (tl s) = t' # ts"
        using split_ws_not_Nil [of "tl s"] by (cases "split_ws (tl s)") auto
      with ne False "1.prems" have "t = hd s # t'" "ts = []"
        by (simp_all add: split_ws_other)
      with tt "1.IH"(2) [OF ne False, of t'] have "t' = tl s" by simp
      with \<open>t = hd s # t'\<close> ne show ?thesis by simp
    qed
  qed
qed

lemma last_split_ws_suffix: "\<exists>y. s = y @ last (split_ws s)"
proof (induction s rule: split_ws.induct)
  case (1 s)
  show ?case
  proof (cases "s = []")
    case True
    then show ?thesis by simp
  next
    case ne: False
    show ?thesis
    proof (cases "0 < class_len WhiteSpace s")
      case True
      with ne "1.IH"(1) obtain y where y: "strip_class WhiteSpace s = y @ last (split_ws (strip_class WhiteSpace s))"
        by blast
      obtain r where "s = r @ strip_class WhiteSpace s" using strip_class_suffix by blast
      with y have "s = (r @ y) @ last (split_ws (strip_class WhiteSpace s))"
        by (metis append.assoc)
      moreover from ne True have "last (split_ws s) = last (split_ws (strip_class WhiteSpace s))"
        by (simp add: split_ws_space)
      ultimately show ?thesis by metis
    next
      case False
      with ne "1.IH"(2) obtain y where y: "tl s = y @ last (split_ws (tl s))" by blast
      obtain t ts where tt: "split_ws (tl s) = t # ts"
        using split_ws_not_Nil [of "tl s"] by (cases "split_ws (tl s)") auto
      from ne False tt have sp: "split_ws s = (hd s # t) # ts"
        by (simp add: split_ws_other)
      show ?thesis
      proof (cases "ts = []")
        case True
        with tt have "t = tl s" by (simp add: split_ws_single)
        with sp True ne have "s = [] @ last (split_ws s)" by simp
        then show ?thesis by blast
      next
        case nts: False
        with sp tt have "last (split_ws s) = last (split_ws (tl s))" by simp
        with y ne have "s = (hd s # y) @ last (split_ws s)"
          by (metis append_Cons list.collapse)
        then show ?thesis by blast
      qed
    qed
  qed
qed

lemma last_split_ws_Nil:
  assumes "last (split_ws s) = []" and "s \<noteq> []"
  shows "\<exists>y w. w \<in> set WhiteSpace \<and> s = y @ w"
  using assms
proof (induction s rule: split_ws.induct)
  case (1 s)
  note ne = \<open>s \<noteq> []\<close>
  show ?case
  proof (cases "0 < class_len WhiteSpace s")
    case True
    let ?s' = "strip_class WhiteSpace s"
    from ne True "1.prems"(1) have l: "last (split_ws ?s') = []"
      by (simp add: split_ws_space)
    obtain r where r: "s = r @ ?s'" using strip_class_suffix by blast
    show ?thesis
    proof (cases "?s' = []")
      case True
      then show ?thesis using ne by (rule strip_class_Nil_ends)
    next
      case False
      with "1.IH"(1) [OF ne True l] obtain y w where "w \<in> set WhiteSpace" "?s' = y @ w"
        by blast
      with r have "s = (r @ y) @ w" by (metis append.assoc)
      with \<open>w \<in> set WhiteSpace\<close> show ?thesis by blast
    qed
  next
    case False
    obtain t ts where tt: "split_ws (tl s) = t # ts"
      using split_ws_not_Nil [of "tl s"] by (cases "split_ws (tl s)") auto
    from ne False tt have sp: "split_ws s = (hd s # t) # ts"
      by (simp add: split_ws_other)
    with "1.prems"(1) have nts: "ts \<noteq> []" by auto
    with sp tt "1.prems"(1) have l: "last (split_ws (tl s)) = []" by simp
    from nts tt have "tl s \<noteq> []" by auto
    with "1.IH"(2) [OF ne False l] obtain y w where "w \<in> set WhiteSpace" "tl s = y @ w"
      by blast
    with ne have "s = (hd s # y) @ w" by (metis append_Cons list.collapse)
    with \<open>w \<in> set WhiteSpace\<close> show ?thesis by blast
  qed
qed

lemma WhiteSpace_no_Nil: "[] \<notin> set WhiteSpace" "[] \<notin> set (map rev WhiteSpace)"
  by (simp_all add: WhiteSpace_def)

lemma class_len_plain:
  assumes "plain c"
  shows "class_len WhiteSpace (c # s) = 0" and "class_len (map rev WhiteSpace) (c # s) = 0"
proof -
  have "\<forall>w \<in> set WhiteSpace. \<not> startsWith (c # s) w"
    using assms by (auto simp: WhiteSpace_def plain_def)
  then show "class_len WhiteSpace (c # s) = 0"
    by (simp add: class_len_0_iff WhiteSpace_no_Nil)
  have "\<forall>w \<in> set (map rev WhiteSpace). \<not> startsWith (c # s) w"
    using assms by (auto simp: WhiteSpace_def plain_def)
  then show "class_len (map rev WhiteSpace) (c # s) = 0"
    using class_len_0_iff [OF WhiteSpace_no_Nil(2), of "c # s"] by blast
qed

lemma space_first_only: "\<forall>w \<in> set (map rev WhiteSpace). CHR '' '' \<notin> set (tl w)"
  by (simp add: WhiteSpace_def)

lemma class_len_before_space:
  assumes "a \<noteq> []" and "class_len (map rev WhiteSpace) (a @ b) = 0"
  shows "class_len (map rev WhiteSpace) (a @ CHR '' '' # z) = 0"
proof -
  from assms(2) have "\<forall>w \<in> set (map rev WhiteSpace). \<not> startsWith (a @ b) w"
    using class_len_0_iff [OF WhiteSpace_no_Nil(2), of "a @ b"] by blast
  then have "\<not> startsWith (a @ CHR '' '' # z) w" if "w \<in> set (map rev WhiteSpace)" for w
    using that space_first_only startsWith_other_byte_tl [OF assms(1), of b w "CHR '' ''" z]
    by blast
  then show ?thesis
    using class_len_0_iff [OF WhiteSpace_no_Nil(2), of "a @ CHR '' '' # z"] by blast
qed

lemma trimEnd_id: "class_len (map rev WhiteSpace) (rev s) = 0 \<Longrightarrow> trimEnd s = s"
  by (simp add: trimEnd_def strip_class_id)

lemma trim_no_space_at_end: "class_len (map rev WhiteSpace) (rev (trim s)) = 0"
  by (simp add: trim_def trimEnd_def)

lemma no_space_at_end:
  assumes "class_len (map rev WhiteSpace) (rev x) = 0"
  shows "\<not> (\<exists>y w. w \<in> set WhiteSpace \<and> x = y @ w)"
proof
  assume "\<exists>y w. w \<in> set WhiteSpace \<and> x = y @ w"
  then obtain y w where w: "w \<in> set WhiteSpace" "x = y @ w" by blast
  then have "startsWith (rev x) (rev w)" by (simp add: startsWith_def)
  moreover from w(1) have "rev w \<in> set (map rev WhiteSpace)" by simp
  ultimately show False
    using assms class_len_0_iff [OF WhiteSpace_no_Nil(2), of "rev x"] by blast
qed


section \<open>The round trip of the percent-encoding\<close>

lemma hex_val_hex_digit: "k < 16 \<Longrightarrow> hex_val (hex_digit k) = Some k"
proof -
  assume "k < 16"
  then have "k \<in> set [0..<16]" by simp
  then show ?thesis
    unfolding hex_digit_def hex_val_def
    by (simp add: upt_rec Let_def) (elim disjE; simp)
qed

lemma decode_encode_char:
  "percent_decode (encode_char c @ r) = map_option ((#) c) (percent_decode r)"
proof (cases "uri_unreserved c")
  case True
  then have "c \<noteq> CHR ''%''" by (auto simp: uri_unreserved_def)
  with True show ?thesis by (simp add: encode_char_def)
next
  case False
  have lt: "(of_char c :: nat) div 16 < 16" "(of_char c :: nat) mod 16 < 16"
    using nat_of_char_less_256 [of c] by (simp_all add: less_mult_imp_div_less)
  have "char_of (16 * ((of_char c :: nat) div 16) + of_char c mod 16) = c"
    by simp
  with False lt show ?thesis
    by (simp add: encode_char_def hex_val_hex_digit)
qed

lemma percent_decode_encodeURIComponent_append:
  "percent_decode (encodeURIComponent s @ r) = map_option ((@) s) (percent_decode r)"
  by (induction s)
    (simp_all add: encodeURIComponent_def decode_encode_char option.map_comp comp_def option.map_ident)

lemma percent_decode_encodeURIComponent:
  "percent_decode (encodeURIComponent s) = Some s"
  using percent_decode_encodeURIComponent_append [of s "[]"] by simp

lemma plain_hex_digit: "k < 16 \<Longrightarrow> plain (hex_digit k)"
proof -
  assume "k < 16"
  then have "k \<in> set [0..<16]" by simp
  then show ?thesis
    unfolding hex_digit_def plain_def
    by (simp add: upt_rec) (elim disjE; simp)
qed

lemma plain_unreserved: "uri_unreserved c \<Longrightarrow> plain c"
  unfolding uri_unreserved_def plain_def by (elim disjE; simp) (elim disjE; simp)

lemma plain_encode_char: "d \<in> set (encode_char c) \<Longrightarrow> plain d"
proof -
  have lt: "(of_char c :: nat) div 16 < 16" "(of_char c :: nat) mod 16 < 16"
    using nat_of_char_less_256 [of c] by (simp_all add: less_mult_imp_div_less)
  assume "d \<in> set (encode_char c)"
  then consider "uri_unreserved c" "d = c" | "d = CHR ''%''"
    | "d = hex_digit (of_char c div 16)" | "d = hex_digit (of_char c mod 16)"
    by (auto simp: encode_char_def split: if_splits)
  then show ?thesis
    using lt by cases (simp_all add: plain_unreserved plain_hex_digit, simp add: plain_def)
qed

lemma plain_encodeURIComponent: "d \<in> set (encodeURIComponent s) \<Longrightarrow> plain d"
  by (auto simp: encodeURIComponent_def dest: plain_encode_char)


section \<open>Properties of the rewriting\<close>

lemma attr_get_attr_set:
  "attr_get (attr_set attribs a v) b = (if b = [] then None else if b = a then Some v else attr_get attribs b)"
  by (simp add: attr_get_def attr_set_def update_conv')

lemma attribute_of_cases:
  "attribute_of tagName = [] \<or> attribute_of tagName = ''href''
   \<or> attribute_of tagName = ''action'' \<or> attribute_of tagName = ''src''"
  by (simp add: attribute_of_def)

lemma attr_get_Some_name: "attr_get attribs a = Some v \<Longrightarrow> a \<noteq> []"
  by (auto simp: attr_get_def split: if_splits)

lemma attr_get_Nil [simp]: "attr_get attribs [] = None"
  by (simp add: attr_get_def)

lemma attr_get_rewrite_style_attribute:
  "a \<noteq> ''style'' \<Longrightarrow> attr_get (rewrite_style_attribute P baseUrl attribs) a = attr_get attribs a"
  by (simp add: rewrite_style_attribute_def attr_get_attr_set split: option.splits)

lemma attr_get_rewrite_srcset_attribute:
  "a \<noteq> ''srcset'' \<Longrightarrow>
   attr_get (rewrite_srcset_attribute P baseUrl tagName attribs) a = attr_get attribs a"
  by (simp add: rewrite_srcset_attribute_def attr_get_attr_set split: option.splits)

lemma attr_get_rewrite_url_attribute_other:
  assumes "a \<noteq> attribute_of tagName" and "a \<noteq> ''method''"
  shows "attr_get (rewrite_url_attribute fm P baseUrl tagName attribs) a = attr_get attribs a"
  using assms
  by (cases "tagName = ''form''")
    (auto simp: rewrite_url_attribute_def Let_def attr_get_attr_set split: option.splits)

text \<open>The URL attribute of a rewritten element, when the reference resolves.\<close>

lemma rewrite_url_attribute_proxied:
  assumes "attr_get attribs (attribute_of tagName) = Some R"
    and "R \<noteq> []" and "\<not> startsWith R ''data:''"
    and "URL_new_base P R baseUrl = Some u"
  shows "attr_get (rewrite_url_attribute fm P baseUrl tagName attribs) (attribute_of tagName)
         = Some (proxyPrefix @ encodeURIComponent (href u))"
proof -
  from assms(1) have ne: "attribute_of tagName \<noteq> []" by (rule attr_get_Some_name)
  have nm: "attribute_of tagName \<noteq> ''method''"
    using attribute_of_cases [of tagName] by auto
  have fa: "tagName = ''form'' \<Longrightarrow> attribute_of tagName = ''action''"
    by (simp add: attribute_of_def)
  from assms ne nm fa show ?thesis
    by (cases "tagName = ''form''")
      (simp_all add: rewrite_url_attribute_def proxied_def attr_get_attr_set Let_def)
qed

lemma rewrite_element_proxied:
  assumes "attr_get attribs (attribute_of tagName) = Some R"
    and "R \<noteq> []" and "\<not> startsWith R ''data:''"
    and "URL_new_base P R baseUrl = Some u"
  shows "attr_get (rewrite_element P baseUrl tagName attribs) (attribute_of tagName)
         = Some (proxyPrefix @ encodeURIComponent (href u))"
proof -
  from assms(1) have ne: "attribute_of tagName \<noteq> []" by (rule attr_get_Some_name)
  have n1: "attribute_of tagName \<noteq> ''style''" and n2: "attribute_of tagName \<noteq> ''srcset''"
    using attribute_of_cases [of tagName] ne by auto
  show ?thesis
    unfolding rewrite_element_def
    by (simp add: attr_get_rewrite_style_attribute [OF n1]
        attr_get_rewrite_srcset_attribute [OF n2] rewrite_url_attribute_proxied [OF assms])
qed

lemma attr_get_method_rewrite_url_attribute:
  assumes "attr_get attribs ''action'' = Some R"
    and "R \<noteq> []" and "\<not> startsWith R ''data:''"
    and "URL_new_base P R baseUrl = Some u"
  shows "attr_get (rewrite_url_attribute fm P baseUrl ''form'' attribs) ''method''
         = Some (fm (attr_set attribs ''action'' (proxyPrefix @ encodeURIComponent (href u))))"
  using assms
  by (simp add: rewrite_url_attribute_def proxied_def attr_get_attr_set Let_def attribute_of_def)

lemma rewrite_url_attribute_unchanged:
  assumes "attr_get attribs (attribute_of tagName) = Some R"
    and "R = [] \<or> startsWith R ''data:''"
  shows "rewrite_url_attribute fm P baseUrl tagName attribs = attribs"
  using assms by (auto simp: rewrite_url_attribute_def Let_def)

lemma url_replacer_data:
  "startsWith path ''data:'' \<Longrightarrow> url_replacer P baseUrl match quote path = match"
  by (simp add: url_replacer_def)

lemma url_replacer_http:
  "startsWith path ''http'' \<Longrightarrow> url_replacer P baseUrl match quote path = match"
  by (simp add: url_replacer_def)

lemma url_replacer_proxied:
  assumes "\<not> startsWith path ''http''" and "\<not> startsWith path ''//''"
    and "\<not> startsWith path ''data:''" and "URL_new_base P path baseUrl = Some u"
  shows "url_replacer P baseUrl match quote path
         = ''url('' @ quote @ proxyPrefix @ encodeURIComponent (href u) @ quote @ '')''"
  using assms by (simp add: url_replacer_def proxied_def)

lemma url_replacer_empty:
  "URL_new_base P [] baseUrl = Some u \<Longrightarrow>
   url_replacer P baseUrl match quote [] = ''url('' @ quote @ proxyPrefix @ encodeURIComponent (href u) @ quote @ '')''"
  by (simp add: url_replacer_def proxied_def)

lemma plain_proxied:
  assumes "proxied P baseUrl path = Some p"
  shows "p \<noteq> []" and "\<forall>d \<in> set p. plain d"
proof -
  from assms obtain h where p: "p = proxyPrefix @ encodeURIComponent h"
    by (auto simp: proxied_def split: option.splits)
  then show "p \<noteq> []" by (simp add: proxyPrefix_def)
  have "\<forall>d \<in> set proxyPrefix. plain d" by (simp add: proxyPrefix_def plain_def)
  with p show "\<forall>d \<in> set p. plain d" by (auto dest: plain_encodeURIComponent)
qed

text \<open>
  The \<open>trim\<close> of the last line of the \<open>try\<close> block only removes the space that the
  template leaves after the URL when the candidate has no descriptor.
\<close>

lemma trim_proxied_descriptor:
  assumes p: "proxied P baseUrl path = Some p"
  shows "trim (p @ '' '' @ join '' '' (tl (split_ws (trim source))))
         = (if join '' '' (tl (split_ws (trim source))) = [] then p
            else p @ '' '' @ join '' '' (tl (split_ws (trim source))))"
proof -
  let ?RW = "map rev WhiteSpace"
  let ?x = "trim source"
  let ?ds = "tl (split_ws ?x)"
  let ?d = "join '' '' ?ds"
  note pl = plain_proxied [OF p]
  from pl obtain c p' where cp: "p = c # p'" "plain c" by (cases p) auto
  from pl have lastp: "plain (last p)" by simp
  have start: "trimStart (p @ '' '' @ ?d) = p @ '' '' @ ?d"
    using cp class_len_plain(1) [of c] by (simp add: trimStart_def strip_class_id)
  have revp: "class_len ?RW (rev p @ z) = 0" for z
  proof -
    from pl(1) have "rev p = last p # rev (butlast p)" by (simp add: rev_eq_Cons_iff)
    then have e: "rev p @ z = last p # (rev (butlast p) @ z)" by simp
    show ?thesis unfolding e using lastp by (rule class_len_plain(2))
  qed
  show ?thesis
  proof (cases "?ds = []")
    case True
    then have d: "?d = []" by simp
    have one: "class_len ?RW (CHR '' '' # rev p) = 1"
      by (simp add: class_len_def WhiteSpace_def)
    have "strip_class ?RW (CHR '' '' # rev p) = strip_class ?RW (rev p)"
      using one by (simp add: strip_class_step)
    also have "\<dots> = rev p" using revp [of "[]"] by (simp add: strip_class_id)
    finally have "trimEnd (p @ '' '') = p" by (simp add: trimEnd_def)
    with d start show ?thesis by (simp add: trim_def)
  next
    case False
    from trim_no_space_at_end have x0: "class_len ?RW (rev ?x) = 0" .
    have xne: "?x \<noteq> []" using False by auto
    let ?t = "last (split_ws ?x)"
    have tne: "?t \<noteq> []"
      using last_split_ws_Nil [OF _ xne] no_space_at_end [OF x0] by blast
    obtain y where y: "?x = y @ ?t" using last_split_ws_suffix by blast
    with x0 have t0: "class_len ?RW (rev ?t @ rev y) = 0" by (metis rev_append)
    have lt: "last ?ds = ?t" using False by (simp add: last_tl)
    from join_last [OF False, of "'' ''"] lt obtain d0 where
      d0: "?d = d0 @ ?t" "d0 = [] \<or> (\<exists>d1. d0 = d1 @ '' '')" by auto
    from d0(1) tne have dne: "?d \<noteq> []" by simp
    from d0(2) obtain z where z: "rev (p @ '' '' @ d0) = CHR '' '' # z"
      by (cases "d0 = []") auto
    have "p @ '' '' @ ?d = (p @ '' '' @ d0) @ ?t" using d0(1) by simp
    then have "rev (p @ '' '' @ ?d) = rev ?t @ rev (p @ '' '' @ d0)"
      by (simp only: rev_append)
    then have "rev (p @ '' '' @ ?d) = rev ?t @ CHR '' '' # z"
      by (simp only: z)
    moreover have "class_len ?RW (rev ?t @ CHR '' '' # z) = 0"
      using tne t0 by (intro class_len_before_space) auto
    ultimately have "trimEnd (p @ '' '' @ ?d) = p @ '' '' @ ?d"
      by (simp add: trimEnd_id)
    with start dne show ?thesis by (simp add: trim_def)
  qed
qed

lemma rewrite_srcset_source_cases:
  "rewrite_srcset_source P baseUrl source =
     (let parts = split_ws (trim source); path = hd parts; descriptor = join '' '' (tl parts) in
      if startsWith path ''data:'' then source
      else case URL_new_base P path baseUrl of
             None \<Rightarrow> source
           | Some u \<Rightarrow>
               if descriptor = [] then ''/proxy?url='' @ encodeURIComponent (href u)
               else ''/proxy?url='' @ encodeURIComponent (href u) @ '' '' @ descriptor)"
proof (cases "URL_new_base P (hd (split_ws (trim source))) baseUrl")
  case None
  then show ?thesis by (simp add: rewrite_srcset_source_def proxied_def Let_def)
next
  case (Some u)
  then have p: "proxied P baseUrl (hd (split_ws (trim source)))
      = Some (''/proxy?url='' @ encodeURIComponent (href u))"
    by (simp add: proxied_def proxyPrefix_def)
  show ?thesis
    using Some p trim_proxied_descriptor [OF p, of source]
    by (simp add: rewrite_srcset_source_def Let_def)
qed

text \<open>The callback does not change which elements the selector matches.\<close>

lemma selected_rewrite_element:
  "selected P tagName (rewrite_element P baseUrl tagName attribs) = selected P tagName attribs"
proof -
  have n: "''rel'' \<noteq> attribute_of tagName" "''style'' \<noteq> attribute_of tagName"
    using attribute_of_cases [of tagName] by auto
  have m: "map_of as ''rel'' = attr_get as ''rel''" "map_of as ''style'' = attr_get as ''style''"
    for as :: attribs
    by (simp_all add: attr_get_def)
  have rel: "attr_get (rewrite_element P baseUrl tagName attribs) ''rel'' = attr_get attribs ''rel''"
    by (simp add: rewrite_element_def attr_get_rewrite_style_attribute
        attr_get_rewrite_srcset_attribute attr_get_rewrite_url_attribute_other [OF n(1)])
  have "(attr_get (rewrite_style_attribute P baseUrl as) ''style'' = None)
      = (attr_get as ''style'' = None)" for as
    by (simp add: rewrite_style_attribute_def attr_get_attr_set split: option.splits)
  then have style: "(attr_get (rewrite_element P baseUrl tagName attribs) ''style'' = None)
      = (attr_get attribs ''style'' = None)"
    by (simp add: rewrite_element_def attr_get_rewrite_srcset_attribute
        attr_get_rewrite_url_attribute_other [OF n(2)])
  show ?thesis
    unfolding selected_def m rel style ..
qed

text \<open>
  The traversal: the elements of the rewritten tree are those of the parsed tree that
  are no \<open>base\<close> element and stand in none, in their order, each with its name, and with
  the attributes the callback gives it when the selector matches it.
\<close>

lemma elements_rewrite_node:
  "elements (rewrite_node each P n)
   = map (\<lambda>(t, as). (t, if selected P t as then each t as else as)) (elements n)"
proof (induction n)
  case (Element tagName attribs children)
  then show ?case by (simp add: map_concat comp_def cong: map_cong)
next
  case (NonElement x)
  then show ?case by simp
qed

lemma remove_elements_rewrite_node:
  "remove_elements t (rewrite_node each P n) = map (rewrite_node each P) (remove_elements t n)"
proof (induction n)
  case (Element tagName attribs children)
  then show ?case by (simp add: map_concat comp_def cong: map_cong)
next
  case (NonElement x)
  then show ?case by simp
qed

lemma rewrite_document_kept:
  "rewrite_document each P nodes
   = map (rewrite_node each P) (concat (map (remove_elements ''base'') nodes))"
  by (simp add: rewrite_document_def map_concat comp_def remove_elements_rewrite_node)

lemma document_elements_rewrite_document:
  "document_elements (rewrite_document each P nodes)
   = map (\<lambda>(t, as). (t, if selected P t as then each t as else as)) (kept_elements nodes)"
  by (simp add: rewrite_document_kept document_elements_def kept_elements_def map_concat
      comp_def elements_rewrite_node)

lemma rewritten_element:
  assumes "i < length (kept_elements nodes)" and "kept_elements nodes ! i = (tagName, attribs)"
  shows "length (document_elements (rewrite_document each P nodes)) = length (kept_elements nodes)"
    and "document_elements (rewrite_document each P nodes) ! i
         = (tagName, if selected P tagName attribs then each tagName attribs else attribs)"
  using assms by (simp_all add: document_elements_rewrite_document)

lemma transform_html_parsed:
  assumes "cheerio_load P html = Inr nodes" and "URL_new P originalUrl = Some baseUrl"
  shows "transform_html each P html originalUrl
         = cheerio_html P (rewrite_document (each P baseUrl) P nodes)"
  using assms by (simp add: transform_html_def)

text \<open>No \<open>base\<close> element is left, and a tree without one loses nothing.\<close>

lemma remove_elements_none:
  "\<not> list_ex (has_element t) (remove_elements t n)"
proof (induction n)
  case (Element tagName attribs children)
  then show ?case by (auto simp: list_ex_iff)
next
  case (NonElement x)
  then show ?case by simp
qed

lemma remove_elements_id:
  "\<not> has_element t n \<Longrightarrow> remove_elements t n = [n]"
proof (induction n)
  case (Element tagName attribs children)
  have "concat (map (remove_elements t) children) = concat (map (\<lambda>c. [c]) children)"
    using Element by (intro arg_cong [where f = concat] map_cong [OF refl]) (auto simp: list_ex_iff)
  then show ?case using Element.prems by simp
next
  case (NonElement x)
  then show ?case by simp
qed

lemma rewrite_document_no_base:
  "\<not> list_ex (has_element ''base'') (rewrite_document each P nodes)"
  using remove_elements_none [of "''base''"]
  by (auto simp: rewrite_document_def list_ex_iff)

lemma kept_elements_no_base:
  assumes "\<not> list_ex (has_element ''base'') nodes"
  shows "kept_elements nodes = document_elements nodes"
proof -
  have "concat (map (remove_elements ''base'') nodes) = concat (map (\<lambda>c. [c]) nodes)"
    using assms
    by (intro arg_cong [where f = concat] map_cong [OF refl])
      (auto simp: list_ex_iff remove_elements_id)
  then show ?thesis by (simp add: kept_elements_def)
qed

lemma rewrite_element_not_proxied:
  assumes "attr_get attribs (attribute_of tagName) = Some R"
    and "R = [] \<or> startsWith R ''data:'' \<or> URL_new_base P R baseUrl = None"
  shows "attr_get (rewrite_element P baseUrl tagName attribs) (attribute_of tagName) = Some R"
proof -
  from assms(1) have ne: "attribute_of tagName \<noteq> []" by (rule attr_get_Some_name)
  have n1: "attribute_of tagName \<noteq> ''style''" and n2: "attribute_of tagName \<noteq> ''srcset''"
    using attribute_of_cases [of tagName] ne by auto
  have "rewrite_url_attribute method_or_GET P baseUrl tagName attribs = attribs"
    using assms by (auto simp: rewrite_url_attribute_def Let_def proxied_def)
  then show ?thesis
    unfolding rewrite_element_def
    by (simp add: attr_get_rewrite_style_attribute [OF n1]
        attr_get_rewrite_srcset_attribute [OF n2] assms(1))
qed

text \<open>
  What \<open>rewriteHtmlContent\<close> does to the element at a place of the parsed document,
  in \<open>server.js\<close> and in the revision that upper-cases the method.
\<close>

lemma rewriteHtmlContent_element:
  assumes "cheerio_load P html = Inr nodes" and "URL_new P originalUrl = Some baseUrl"
    and "i < length (kept_elements nodes)" and "kept_elements nodes ! i = (tagName, attribs)"
  shows "rewriteHtmlContent P html originalUrl
         = cheerio_html P (rewrite_document (rewrite_element P baseUrl) P nodes)"
    and "length (document_elements (rewrite_document (rewrite_element P baseUrl) P nodes))
         = length (kept_elements nodes)"
    and "document_elements (rewrite_document (rewrite_element P baseUrl) P nodes) ! i
         = (tagName, if selected P tagName attribs
                     then rewrite_element P baseUrl tagName attribs else attribs)"
  using transform_html_parsed [OF assms(1,2)] rewritten_element [OF assms(3,4)]
  by (simp_all add: rewriteHtmlContent_def)

lemma rewriteHtmlContent_upper_element:
  assumes "cheerio_load P html = Inr nodes" and "URL_new P originalUrl = Some baseUrl"
    and "i < length (kept_elements nodes)" and "kept_elements nodes ! i = (tagName, attribs)"
  shows "rewriteHtmlContent_upper P html originalUrl
         = cheerio_html P (rewrite_document (rewrite_element_upper P baseUrl) P nodes)"
    and "document_elements (rewrite_document (rewrite_element_upper P baseUrl) P nodes) ! i
         = (tagName, if selected P tagName attribs
                     then rewrite_element_upper P baseUrl tagName attribs else attribs)"
  using transform_html_parsed [OF assms(1,2)] rewritten_element [OF assms(3,4)]
  by (simp_all add: rewriteHtmlContent_upper_def)

lemma selected_by_name:
  "tagName \<in> set [''a'', ''form'', ''img'', ''script'', ''video'', ''audio'', ''source'', ''iframe'']
   \<Longrightarrow> selected P tagName attribs"
  by (simp add: selected_def)


section \<open>Properties of the handler\<close>

lemma statusCode_relay_headers [simp]:
  "statusCode (relay_headers P hs res) = statusCode res"
proof -
  have "statusCode (foldl (\<lambda>r (name, v).
      if toLowerCase P name \<in> set excluded_headers then r else setHeader P r name v) res hs)
      = statusCode res"
    by (induction hs arbitrary: res) (auto simp: setHeader_def)
  then show ?thesis by (simp add: relay_headers_def)
qed

lemma relay_headers_Nil [simp]: "relay_headers P [] res = res"
  by (simp add: relay_headers_def)

lemma relay_headers_Cons:
  "relay_headers P ((name, v) # hs) res
   = relay_headers P hs
       (if toLowerCase P name \<in> set excluded_headers then res else setHeader P res name v)"
  by (simp add: relay_headers_def)

lemma relay_headers_append:
  "relay_headers P (xs @ ys) res = relay_headers P ys (relay_headers P xs res)"
  by (simp add: relay_headers_def)

lemma statusCode_catch_error:
  "statusCode (catch_error targetUrl res e)
   = (if err_name e = ''TimeoutError'' \<or> err_name e = ''AbortError'' then 504 else 500)"
  by (simp add: catch_error_def send_error_def)

lemma out_headers_catch_error [simp]:
  "out_headers (catch_error targetUrl res e) = out_headers res"
  by (simp add: catch_error_def send_error_def)

lemma out_headers_end_with [simp]: "out_headers (end_with res c) = out_headers res"
  by (simp add: end_with_def)

lemma statusCode_end_with [simp]: "statusCode (end_with res c) = statusCode res"
  by (simp add: end_with_def)

lemma statusCode_relay_response:
  assumes "up_body response = Inr content" and "URL_new P targetUrl = Some urlObj"
  shows "statusCode (relay_response P targetUrl response res)
         = (case (if content_type_includes P response ''text/html''
                  then rewriteHtmlContent P content targetUrl else Inr content) of
              Inl e \<Rightarrow> if err_name e = ''TimeoutError'' \<or> err_name e = ''AbortError''
                       then 504 else 500
            | Inr html \<Rightarrow> up_status response)"
  using assms
  by (simp add: relay_response_def Let_def statusCode_catch_error split: sum.splits)

text \<open>
  The headers of the outbound response after the \<open>forEach\<close>: a header whose name is
  not excluded is there with its name and its value when no later header of the
  response has its name, whatever the case of the letters; and no header is set under
  an excluded name.
\<close>

lemma map_of_relay_headers_other:
  assumes "\<forall>(n, w) \<in> set hs. toLowerCase P n \<noteq> k"
  shows "map_of (out_headers (relay_headers P hs res)) k = map_of (out_headers res) k"
  using assms
proof (induction hs arbitrary: res)
  case Nil
  then show ?case by simp
next
  case (Cons h hs)
  obtain n w where h: "h = (n, w)" by (cases h)
  with Cons.prems have "toLowerCase P n \<noteq> k" and "\<forall>(n, w) \<in> set hs. toLowerCase P n \<noteq> k"
    by auto
  then show ?case
    using Cons.IH by (simp add: h relay_headers_Cons setHeader_def update_conv')
qed

lemma getHeader_relayed:
  assumes "toLowerCase P name \<notin> set excluded_headers"
    and "hs = xs @ (name, v) # ys"
    and "\<forall>(n, w) \<in> set ys. toLowerCase P n \<noteq> toLowerCase P name"
  shows "getHeader P (relay_headers P hs res) name = Some v"
    and "map_of (out_headers (relay_headers P hs res)) (toLowerCase P name) = Some (name, v)"
proof -
  have "map_of (out_headers (relay_headers P hs res)) (toLowerCase P name)
      = map_of (out_headers (setHeader P (relay_headers P xs res) name v)) (toLowerCase P name)"
    using assms(1) map_of_relay_headers_other [OF assms(3)]
    by (simp add: assms(2) relay_headers_append relay_headers_Cons)
  then show "map_of (out_headers (relay_headers P hs res)) (toLowerCase P name) = Some (name, v)"
    by (simp add: setHeader_def update_conv')
  then show "getHeader P (relay_headers P hs res) name = Some v"
    by (simp add: getHeader_def)
qed

lemma excluded_header_not_relayed:
  assumes "k \<in> set excluded_headers"
  shows "map_of (out_headers (relay_headers P hs res)) k = map_of (out_headers res) k"
proof (induction hs arbitrary: res)
  case Nil
  then show ?case by simp
next
  case (Cons h hs)
  obtain n w where h: "h = (n, w)" by (cases h)
  show ?case
    using assms Cons.IH by (auto simp: h relay_headers_Cons setHeader_def update_conv')
qed

lemma out_headers_relay_response:
  "out_headers (relay_response P targetUrl response res)
   = out_headers (relay_headers P (up_headers response) (res\<lparr>statusCode := up_status response\<rparr>))"
  by (simp add: relay_response_def Let_def split: sum.splits option.splits)


section \<open>Scenarios\<close>

text \<open>
  The scenario of the specification for style sheets: \<open>background: url('../img/bg.png')\<close>
  in a style sheet fetched from \<open>http://x.test/css/a.css\<close>.
\<close>

lemma css_scenario:
  "rewrite_css example_platform css_url (''background: url('' @ [CHR 0x27] @ ''../img/bg.png'' @ [CHR 0x27] @ '')'')
   = ''background: url('' @ [CHR 0x27] @ ''/proxy?url=http%3A%2F%2Fx.test%2Fimg%2Fbg.png'' @ [CHR 0x27] @ '')''"
  by code_simp

text \<open>
  A \<open>data:\<close> URI holds a comma, so the \<open>srcset\<close> step cuts it in two candidates; the
  first begins with \<open>data:\<close> and stays, the second is taken for a relative path.
\<close>

lemma srcset_data_uri_example:
  "rewrite_srcset example_platform page_url ''data:image/png;base64,AAA 2x''
   = ''data:image/png;base64, /proxy?url=http%3A%2F%2Fx.test%2FAAA 2x''"
  by code_simp


section \<open>The claims\<close>

text \<open>
  C1, as amended. Let the parser read the page and the URL constructor read its
  address, and let an element that the selector matches hold a reference \<open>R\<close> in its URL
  attribute (\<open>href\<close>, \<open>src\<close> or \<open>action\<close>). The transformer gives the serialisation of a
  tree in which that element stands at the same place, with the same name. When \<open>R\<close>
  is empty or begins with \<open>data:\<close>, or the URL constructor throws on it, the attribute
  is left as it is. Otherwise the constructor resolves \<open>R\<close> against the address to \<open>u\<close>:
  the attribute is \<open>/proxy?url=\<close> followed by the percent-encoding of \<open>u\<close>, and
  percent-decoding that query value gives \<open>u\<close> back.
\<close>

theorem rewritten_reference_round_trip:
  assumes "cheerio_load P html = Inr nodes"
    and "URL_new P originalUrl = Some baseUrl"
    and "i < length (kept_elements nodes)"
    and "kept_elements nodes ! i = (tagName, attribs)"
    and "selected P tagName attribs"
    and "attr_get attribs (attribute_of tagName) = Some R"
  shows "let doc = rewrite_document (rewrite_element P baseUrl) P nodes in
         rewriteHtmlContent P html originalUrl = cheerio_html P doc
         \<and> length (document_elements doc) = length (kept_elements nodes)
         \<and> fst (document_elements doc ! i) = tagName
         \<and> (case (if R = [] \<or> startsWith R ''data:'' then None else URL_new_base P R baseUrl) of
              None \<Rightarrow>
                attr_get (snd (document_elements doc ! i)) (attribute_of tagName) = Some R
            | Some u \<Rightarrow>
                attr_get (snd (document_elements doc ! i)) (attribute_of tagName)
                  = Some (''/proxy?url='' @ encodeURIComponent (href u))
                \<and> percent_decode (encodeURIComponent (href u)) = Some (href u))"
proof -
  note e = rewriteHtmlContent_element [OF assms(1-4)]
  have "attr_get (rewrite_element P baseUrl tagName attribs) (attribute_of tagName) = Some R"
    if "R = [] \<or> startsWith R ''data:'' \<or> URL_new_base P R baseUrl = None"
    using assms(6) that by (rule rewrite_element_not_proxied)
  moreover have "attr_get (rewrite_element P baseUrl tagName attribs) (attribute_of tagName)
      = Some (''/proxy?url='' @ encodeURIComponent (href u))"
    if "R \<noteq> []" and "\<not> startsWith R ''data:''" and "URL_new_base P R baseUrl = Some u" for u
    using rewrite_element_proxied [OF assms(6) that] by (simp add: proxyPrefix_def)
  ultimately show ?thesis
    using e assms(5)
    by (auto simp: Let_def percent_decode_encodeURIComponent split: option.splits)
qed

text \<open>
  The scenario of the specification, \<open><img src="/a.png">\<close> in a page fetched from
  \<open>http://x.test/page\<close>, and in the same page a link with an empty \<open>href\<close>.
\<close>

theorem rewritten_reference_round_trip_witness:
  "rewriteHtmlContent example_platform page_html ''http://x.test/page'' = Inr rewritten_page_html
   \<and> kept_elements page_nodes ! 8
       = (''img'', [(''src'', ''/a.png''), (''srcset'', ''/a.png 1x, b.png   2x,data:x 3x'')])
   \<and> attr_get (snd (document_elements rewritten_page_nodes ! 8)) ''src''
       = Some ''/proxy?url=http%3A%2F%2Fx.test%2Fa.png''
   \<and> percent_decode ''http%3A%2F%2Fx.test%2Fa.png'' = Some ''http://x.test/a.png''
   \<and> kept_elements page_nodes ! 5 = (''a'', [(''href'', [])])
   \<and> attr_get (snd (document_elements rewritten_page_nodes ! 5)) ''href'' = Some []"
proof -
  have a: "cheerio_load example_platform page_html = Inr page_nodes" by code_simp
  have b: "URL_new example_platform ''http://x.test/page'' = Some page_url" by code_simp
  have c: "8 < length (kept_elements page_nodes)" "5 < length (kept_elements page_nodes)"
    by code_simp+
  have d: "kept_elements page_nodes ! 8
      = (''img'', [(''src'', ''/a.png''), (''srcset'', ''/a.png 1x, b.png   2x,data:x 3x'')])"
    by code_simp
  have d': "kept_elements page_nodes ! 5 = (''a'', [(''href'', [])])" by code_simp
  have s: "selected example_platform ''img''
      [(''src'', ''/a.png''), (''srcset'', ''/a.png 1x, b.png   2x,data:x 3x'')]"
    "selected example_platform ''a'' [(''href'', [])]"
    by (simp_all add: selected_def)
  have f: "attr_get [(''src'', ''/a.png''), (''srcset'', ''/a.png 1x, b.png   2x,data:x 3x'')]
      (attribute_of ''img'') = Some ''/a.png''"
    by (simp add: attr_get_def attribute_of_def)
  have f': "attr_get [(''href'', [])] (attribute_of ''a'') = Some []"
    by (simp add: attr_get_def attribute_of_def)
  have g: "rewrite_document (rewrite_element example_platform page_url) example_platform page_nodes
      = rewritten_page_nodes"
    by code_simp
  have h: "cheerio_html example_platform rewritten_page_nodes = Inr rewritten_page_html"
    by code_simp
  have r: "URL_new_base example_platform ''/a.png'' page_url = Some (http_url ''http://x.test/a.png'')"
    by (simp add: example_platform_def example_references_def page_url_def http_url_def)
  have enc: "encodeURIComponent ''http://x.test/a.png'' = ''http%3A%2F%2Fx.test%2Fa.png''"
    by code_simp
  have at: "attribute_of ''img'' = ''src''" "attribute_of ''a'' = ''href''"
    by (simp_all add: attribute_of_def)
  show ?thesis
    using rewritten_reference_round_trip [OF a b c(1) d s(1) f]
      rewritten_reference_round_trip [OF a b c(2) d' s(2) f']
    by (simp add: Let_def g h r enc at http_url_def d d')
qed

text \<open>
  C1 as it is stated fails at the empty reference: the URL constructor resolves it
  (to the base), and the attribute stays empty, by the test \<open>originalPath.length > 0\<close>;
  so it does in the page of the examples, whose second link has an empty \<open>href\<close>.
\<close>

theorem empty_reference_counterexample:
  "URL_new_base example_platform [] page_url = Some (http_url ''http://x.test/page'')
   \<and> attr_get (rewrite_element example_platform page_url ''a'' [(''href'', [])]) ''href'' = Some []
   \<and> [] \<noteq> ''/proxy?url='' @ encodeURIComponent (href (http_url ''http://x.test/page''))
   \<and> cheerio_load example_platform page_html = Inr page_nodes
   \<and> kept_elements page_nodes ! 5 = (''a'', [(''href'', [])])
   \<and> rewriteHtmlContent example_platform page_html ''http://x.test/page''
       = cheerio_html example_platform rewritten_page_nodes
   \<and> document_elements rewritten_page_nodes ! 5 = (''a'', [(''href'', [])])"
proof -
  have "URL_new_base example_platform [] page_url = Some (http_url ''http://x.test/page'')
     \<and> attr_get (rewrite_element example_platform page_url ''a'' [(''href'', [])]) ''href'' = Some []
     \<and> [] \<noteq> ''/proxy?url='' @ encodeURIComponent (href (http_url ''http://x.test/page''))"
    by (simp add: example_platform_def example_references_def page_url_def http_url_def
        rewrite_element_def rewrite_url_attribute_def rewrite_srcset_attribute_def
        rewrite_style_attribute_def attribute_of_def attr_get_def)
  moreover have "cheerio_load example_platform page_html = Inr page_nodes" by code_simp
  moreover have "kept_elements page_nodes ! 5 = (''a'', [(''href'', [])])" by code_simp
  moreover have "rewriteHtmlContent example_platform page_html ''http://x.test/page''
      = cheerio_html example_platform rewritten_page_nodes"
    by code_simp
  moreover have "document_elements rewritten_page_nodes ! 5 = (''a'', [(''href'', [])])"
    by code_simp
  ultimately show ?thesis by (simp only: simp_thms)
qed

text \<open>
  C2, as amended. A request without a \<open>url\<close> value, with an empty one or with one the
  URL constructor throws on is answered with 400; one whose URL has a protocol other
  than \<open>http:\<close> and \<open>https:\<close> with 403. For the other requests: when \<open>fetch\<close>, the reading
  of the body or, for a body served as \<open>text/html\<close>, \<open>rewriteHtmlContent\<close> fails with a
  \<open>TimeoutError\<close> or an \<open>AbortError\<close> the status is 504; when one of them fails with any
  other exception the status is 500; and when none fails the status is that of the
  upstream response.
\<close>

theorem handler_status:
  "(rejected P req \<longrightarrow>
      statusCode (fst (handler P fetch req res))
        = (case req_query_url req of
             None \<Rightarrow> 400
           | Some targetUrl \<Rightarrow>
               if targetUrl = [] \<or> URL_new P targetUrl = None then 400 else 403))
   \<and> (\<forall>targetUrl. \<not> rejected P req \<and> req_query_url req = Some targetUrl \<longrightarrow>
        (case fetch targetUrl (make_fetch_options req) of
           Inl e \<Rightarrow>
             statusCode (fst (handler P fetch req res))
               = (if err_name e = ''TimeoutError'' \<or> err_name e = ''AbortError'' then 504 else 500)
         | Inr response \<Rightarrow>
             (case up_body response of
                Inl e \<Rightarrow>
                  statusCode (fst (handler P fetch req res))
                    = (if err_name e = ''TimeoutError'' \<or> err_name e = ''AbortError'' then 504 else 500)
              | Inr content \<Rightarrow>
                  (case (if content_type_includes P response ''text/html''
                         then rewriteHtmlContent P content targetUrl else Inr content) of
                     Inl e \<Rightarrow>
                       statusCode (fst (handler P fetch req res))
                         = (if err_name e = ''TimeoutError'' \<or> err_name e = ''AbortError''
                            then 504 else 500)
                   | Inr html \<Rightarrow>
                       statusCode (fst (handler P fetch req res)) = up_status response))))"
proof (intro conjI impI allI)
  assume "rejected P req"
  then show "statusCode (fst (handler P fetch req res))
        = (case req_query_url req of
             None \<Rightarrow> 400
           | Some targetUrl \<Rightarrow>
               if targetUrl = [] \<or> URL_new P targetUrl = None then 400 else 403)"
    by (auto simp: rejected_def handler_def send_error_def split: option.splits)
next
  fix targetUrl
  assume a: "\<not> rejected P req \<and> req_query_url req = Some targetUrl"
  then obtain urlObj where u: "URL_new P targetUrl = Some urlObj" and ne: "targetUrl \<noteq> []"
    and pr: "protocol urlObj = ''http:'' \<or> protocol urlObj = ''https:''"
    by (auto simp: rejected_def split: option.splits)
  from a u ne pr have h: "fst (handler P fetch req res)
      = (case fetch targetUrl (make_fetch_options req) of
           Inl e \<Rightarrow> catch_error targetUrl res e
         | Inr response \<Rightarrow> relay_response P targetUrl response res)"
    by (auto simp: handler_def Let_def)
  show "case fetch targetUrl (make_fetch_options req) of
           Inl e \<Rightarrow>
             statusCode (fst (handler P fetch req res))
               = (if err_name e = ''TimeoutError'' \<or> err_name e = ''AbortError'' then 504 else 500)
         | Inr response \<Rightarrow>
             (case up_body response of
                Inl e \<Rightarrow>
                  statusCode (fst (handler P fetch req res))
                    = (if err_name e = ''TimeoutError'' \<or> err_name e = ''AbortError'' then 504 else 500)
              | Inr content \<Rightarrow>
                  (case (if content_type_includes P response ''text/html''
                         then rewriteHtmlContent P content targetUrl else Inr content) of
                     Inl e \<Rightarrow>
                       statusCode (fst (handler P fetch req res))
                         = (if err_name e = ''TimeoutError'' \<or> err_name e = ''AbortError''
                            then 504 else 500)
                   | Inr html \<Rightarrow>
                       statusCode (fst (handler P fetch req res)) = up_status response))"
  proof (cases "fetch targetUrl (make_fetch_options req)")
    case (Inl e)
    with h show ?thesis by (simp add: statusCode_catch_error)
  next
    case (Inr response)
    show ?thesis
    proof (cases "up_body response")
      case (Inl e)
      with Inr h show ?thesis
        by (simp add: relay_response_def Let_def statusCode_catch_error)
    next
      case body: (Inr content)
      with Inr h statusCode_relay_response [OF body u, of res] show ?thesis
        by (simp split: sum.splits)
    qed
  qed
qed

text \<open>
  The scenarios of the specification: the upstream server does not answer in time; the
  address is an \<open>ftp:\<close> one; the address is no URL; the upstream server answers with the
  status 404 and a page, which is sent rewritten with that status. And a page whose
  tree the serialiser of the library cannot write.
\<close>

theorem handler_status_witness:
  "statusCode (fst (handler example_platform
      (fails \<lparr>err_name = ''TimeoutError'', err_message = ''The operation was aborted due to timeout''\<rparr>)
      (get_request ''http://x.test/page'') initial_response)) = 504
   \<and> statusCode (fst (handler example_platform (serves [] ''file'')
      (get_request ''ftp://x.test/f'') initial_response)) = 403
   \<and> statusCode (fst (handler example_platform (serves [] ''file'')
      (get_request ''not a url'') initial_response)) = 400
   \<and> statusCode (fst (handler example_platform
      (answers 404 [(''content-type'', ''text/html; charset=utf-8'')] page_html)
      (get_request ''http://x.test/page'') initial_response)) = 404
   \<and> sent (fst (handler example_platform
      (answers 404 [(''content-type'', ''text/html; charset=utf-8'')] page_html)
      (get_request ''http://x.test/page'') initial_response)) = Content rewritten_page_html
   \<and> statusCode (fst (handler overflowing_platform
      (answers 200 [(''content-type'', ''text/html; charset=utf-8'')] page_html)
      (get_request ''http://x.test/page'') initial_response)) = 500"
proof -
  have a: "\<not> rejected example_platform (get_request ''http://x.test/page'')
      \<and> req_query_url (get_request ''http://x.test/page'') = Some ''http://x.test/page''"
    by code_simp
  have a': "\<not> rejected overflowing_platform (get_request ''http://x.test/page'')
      \<and> req_query_url (get_request ''http://x.test/page'') = Some ''http://x.test/page''"
    by code_simp
  have b: "rejected example_platform (get_request ''ftp://x.test/f'')" by code_simp
  have c: "rejected example_platform (get_request ''not a url'')" by code_simp
  have d: "URL_new example_platform ''ftp://x.test/f'' \<noteq> None" by code_simp
  have e: "URL_new example_platform ''not a url'' = None" by code_simp
  have f: "content_type_includes example_platform
      \<lparr>up_status = 404, up_headers = [(''content-type'', ''text/html; charset=utf-8'')],
       up_body = Inr page_html\<rparr> ''text/html''"
    "content_type_includes overflowing_platform
      \<lparr>up_status = 200, up_headers = [(''content-type'', ''text/html; charset=utf-8'')],
       up_body = Inr page_html\<rparr> ''text/html''"
    by code_simp+
  have g: "rewriteHtmlContent example_platform page_html ''http://x.test/page''
      = Inr rewritten_page_html"
    by code_simp
  have g': "rewriteHtmlContent overflowing_platform page_html ''http://x.test/page''
      = Inl \<lparr>err_name = ''RangeError'', err_message = ''Maximum call stack size exceeded''\<rparr>"
    by code_simp
  have s: "sent (fst (handler example_platform
      (answers 404 [(''content-type'', ''text/html; charset=utf-8'')] page_html)
      (get_request ''http://x.test/page'') initial_response)) = Content rewritten_page_html"
    by code_simp
  show ?thesis
    using a a' b c d e f s
      handler_status [of example_platform "get_request ''http://x.test/page''"
        "fails \<lparr>err_name = ''TimeoutError'', err_message = ''The operation was aborted due to timeout''\<rparr>"
        initial_response]
      handler_status [of example_platform "get_request ''ftp://x.test/f''" "serves [] ''file''"
        initial_response]
      handler_status [of example_platform "get_request ''not a url''" "serves [] ''file''"
        initial_response]
      handler_status [of example_platform "get_request ''http://x.test/page''"
        "answers 404 [(''content-type'', ''text/html; charset=utf-8'')] page_html"
        initial_response]
      handler_status [of overflowing_platform "get_request ''http://x.test/page''"
        "answers 200 [(''content-type'', ''text/html; charset=utf-8'')] page_html"
        initial_response]
    by (simp add: fails_def answers_def get_request_def g g')
qed

text \<open>
  C2 as it is stated fails where \<open>fetch\<close> rejects with an exception that is no timeout,
  as it does when the connection is refused: the status is 500, not 502.
\<close>

theorem connection_failure_counterexample:
  "statusCode (fst (handler example_platform
      (fails \<lparr>err_name = ''TypeError'', err_message = ''fetch failed''\<rparr>)
      (get_request ''http://x.test/page'') initial_response)) = 500
   \<and> statusCode (fst (handler example_platform
      (fails \<lparr>err_name = ''TypeError'', err_message = ''fetch failed''\<rparr>)
      (get_request ''http://x.test/page'') initial_response)) \<noteq> 502"
  by code_simp

text \<open>
  C3, at an input where the code departs from it. A style sheet \<open>a{background:url()}\<close>
  served as \<open>text/css\<close> from \<open>http://x.test/css/a.css\<close>: the empty reference of \<open>url()\<close>
  resolves to the URL of the style sheet, and the handler sends the style sheet with
  the proxied form of that URL in the place of the empty reference.
\<close>

theorem empty_css_reference_rewritten:
  "rewrite_css example_platform css_url ''a{background:url()}''
     = ''a{background:url(/proxy?url=http%3A%2F%2Fx.test%2Fcss%2Fa.css)}''
   \<and> sent (fst (handler example_platform
          (serves [(''content-type'', ''text/css'')] ''a{background:url()}'')
          (get_request ''http://x.test/css/a.css'') initial_response))
     = Content ''a{background:url(/proxy?url=http%3A%2F%2Fx.test%2Fcss%2Fa.css)}''"
  by code_simp

text \<open>
  C4, at an input where the code departs from it. An element with the inline style
  \<open>background:url(httpdocs/a.png)\<close> in a page fetched from \<open>http://x.test/page\<close>: the
  relative path resolves, to \<open>http://x.test/httpdocs/a.png\<close>, and the style is left as it
  was, since the path begins with the four letters \<open>http\<close>.
\<close>

theorem relative_http_path_not_rewritten:
  "rewrite_element example_platform page_url ''div'' [(''style'', ''background:url(httpdocs/a.png)'')]
     = [(''style'', ''background:url(httpdocs/a.png)'')]
   \<and> proxied example_platform page_url ''httpdocs/a.png''
     = Some ''/proxy?url=http%3A%2F%2Fx.test%2Fhttpdocs%2Fa.png''
   \<and> rewrite_css example_platform page_url ''background:url(httpdocs/a.png)''
     = ''background:url(httpdocs/a.png)''"
  by code_simp

text \<open>
  C5, as amended. Let the parser read the page and the URL constructor read its
  address, and let a \<open>form\<close> element of the page hold in its \<open>action\<close> a string that is
  not empty, does not begin with \<open>data:\<close> and is resolved by the URL constructor. The
  transformer gives the serialisation of a tree in which that form stands at the
  same place, with a \<open>method\<close> attribute: \<open>GET\<close> when the form had none or an empty one,
  and otherwise, in \<open>server.js\<close>, the value the form had, as it was written; it is the
  revision that forwards the client's headers that upper-cases it.
\<close>

theorem form_method_set:
  assumes "cheerio_load P html = Inr nodes"
    and "URL_new P originalUrl = Some baseUrl"
    and "i < length (kept_elements nodes)"
    and "kept_elements nodes ! i = (''form'', attribs)"
    and "attr_get attribs ''action'' = Some R"
    and "R \<noteq> []" and "\<not> startsWith R ''data:''"
    and "URL_new_base P R baseUrl = Some u"
  shows "let doc = rewrite_document (rewrite_element P baseUrl) P nodes;
             doc_upper = rewrite_document (rewrite_element_upper P baseUrl) P nodes in
         rewriteHtmlContent P html originalUrl = cheerio_html P doc
         \<and> fst (document_elements doc ! i) = ''form''
         \<and> attr_get (snd (document_elements doc ! i)) ''method''
             = Some (case attr_get attribs ''method'' of
                       None \<Rightarrow> ''GET'' | Some m \<Rightarrow> if m = [] then ''GET'' else m)
         \<and> rewriteHtmlContent_upper P html originalUrl = cheerio_html P doc_upper
         \<and> fst (document_elements doc_upper ! i) = ''form''
         \<and> attr_get (snd (document_elements doc_upper ! i)) ''method''
             = Some (case attr_get attribs ''method'' of
                       None \<Rightarrow> ''GET'' | Some m \<Rightarrow> if m = [] then ''GET'' else toUpperCase P m)"
proof -
  have s: "selected P ''form'' attribs" by (simp add: selected_def)
  note e = rewriteHtmlContent_element [OF assms(1-4)]
  note e' = rewriteHtmlContent_upper_element [OF assms(1-4)]
  have "attr_get (rewrite_element P baseUrl ''form'' attribs) ''method''
           = Some (case attr_get attribs ''method'' of
                     None \<Rightarrow> ''GET'' | Some m \<Rightarrow> if m = [] then ''GET'' else m)"
    and "attr_get (rewrite_element_upper P baseUrl ''form'' attribs) ''method''
           = Some (case attr_get attribs ''method'' of
                     None \<Rightarrow> ''GET'' | Some m \<Rightarrow> if m = [] then ''GET'' else toUpperCase P m)"
    using attr_get_method_rewrite_url_attribute [OF assms(5-8)]
    by (simp_all add: rewrite_element_def rewrite_element_upper_def
        attr_get_rewrite_style_attribute attr_get_rewrite_srcset_attribute method_or_GET_def
        method_upper_or_GET_def attr_get_attr_set)
  with e e' s show ?thesis by (simp add: Let_def)
qed

text \<open>
  The two forms of the page of the examples: the form without a method, in \<open>server.js\<close>,
  and the form with the method \<open>post\<close>, in the other revision.
\<close>

theorem form_method_set_witness:
  "rewriteHtmlContent example_platform page_html ''http://x.test/page'' = Inr rewritten_page_html
   \<and> kept_elements page_nodes ! 7 = (''form'', [(''action'', ''/s'')])
   \<and> document_elements rewritten_page_nodes ! 7
       = (''form'', [(''action'', ''/proxy?url=http%3A%2F%2Fx.test%2Fs''), (''method'', ''GET'')])
   \<and> attr_get (snd (document_elements rewritten_page_nodes ! 7)) ''method'' = Some ''GET''
   \<and> rewriteHtmlContent_upper example_platform page_html ''http://x.test/page''
       = Inr rewritten_page_html_upper
   \<and> kept_elements page_nodes ! 6 = (''form'', [(''action'', ''/s''), (''method'', ''post'')])
   \<and> attr_get (snd (document_elements rewritten_page_nodes_upper ! 6)) ''method'' = Some ''POST''"
proof -
  have a: "cheerio_load example_platform page_html = Inr page_nodes" by code_simp
  have b: "URL_new example_platform ''http://x.test/page'' = Some page_url" by code_simp
  have c: "7 < length (kept_elements page_nodes)" "6 < length (kept_elements page_nodes)"
    by code_simp+
  have d7: "kept_elements page_nodes ! 7 = (''form'', [(''action'', ''/s'')])" by code_simp
  have d6: "kept_elements page_nodes ! 6 = (''form'', [(''action'', ''/s''), (''method'', ''post'')])"
    by code_simp
  have f7: "attr_get [(''action'', ''/s'')] ''action'' = Some ''/s''"
    by (simp add: attr_get_def)
  have f6: "attr_get [(''action'', ''/s''), (''method'', ''post'')] ''action'' = Some ''/s''"
    by (simp add: attr_get_def)
  have n: "''/s'' \<noteq> []" "\<not> startsWith ''/s'' ''data:''" by simp_all
  have r: "URL_new_base example_platform ''/s'' page_url = Some (http_url ''http://x.test/s'')"
    by (simp add: example_platform_def example_references_def page_url_def http_url_def)
  have g: "rewrite_document (rewrite_element example_platform page_url) example_platform page_nodes
      = rewritten_page_nodes"
    by code_simp
  have g': "rewrite_document (rewrite_element_upper example_platform page_url) example_platform
      page_nodes = rewritten_page_nodes_upper"
    by code_simp
  have h: "cheerio_html example_platform rewritten_page_nodes = Inr rewritten_page_html"
    "cheerio_html example_platform rewritten_page_nodes_upper = Inr rewritten_page_html_upper"
    by code_simp+
  have el: "document_elements rewritten_page_nodes ! 7
       = (''form'', [(''action'', ''/proxy?url=http%3A%2F%2Fx.test%2Fs''), (''method'', ''GET'')])"
    by code_simp
  have "map ascii_upper ''post'' = ''POST''" by code_simp
  then have up: "toUpperCase example_platform ''post'' = ''POST''"
    by (simp add: example_platform_def)
  show ?thesis
    using form_method_set [OF a b c(1) d7 f7 n r] form_method_set [OF a b c(2) d6 f6 n r]
    by (simp add: Let_def g g' h d6 d7 el up attr_get_def)
qed

text \<open>
  C5 as it is stated fails in \<open>server.js\<close>: the method \<open>post\<close> of a form stays \<open>post\<close>,
  which is not its upper-case form; so it does in the page of the examples.
\<close>

theorem form_method_counterexample:
  "attr_get (rewrite_element example_platform page_url ''form''
      [(''action'', ''/s''), (''method'', ''post'')]) ''method'' = Some ''post''
   \<and> toUpperCase example_platform ''post'' = ''POST''
   \<and> cheerio_load example_platform page_html = Inr page_nodes
   \<and> kept_elements page_nodes ! 6 = (''form'', [(''action'', ''/s''), (''method'', ''post'')])
   \<and> rewriteHtmlContent example_platform page_html ''http://x.test/page''
       = cheerio_html example_platform rewritten_page_nodes
   \<and> document_elements rewritten_page_nodes ! 6
       = (''form'', [(''action'', ''/proxy?url=http%3A%2F%2Fx.test%2Fs''), (''method'', ''post'')])"
proof -
  have "map ascii_upper ''post'' = ''POST''" by code_simp
  then have up: "toUpperCase example_platform ''post'' = ''POST''"
    by (simp add: example_platform_def)
  have "attr_get (rewrite_element example_platform page_url ''form''
      [(''action'', ''/s''), (''method'', ''post'')]) ''method'' = Some ''post''"
    by (simp add: example_platform_def example_references_def page_url_def http_url_def
        rewrite_element_def rewrite_url_attribute_def rewrite_srcset_attribute_def
        rewrite_style_attribute_def attribute_of_def attr_get_def attr_set_def proxied_def
        method_or_GET_def)
  moreover have "cheerio_load example_platform page_html = Inr page_nodes" by code_simp
  moreover have "kept_elements page_nodes ! 6
      = (''form'', [(''action'', ''/s''), (''method'', ''post'')])"
    by code_simp
  moreover have "rewriteHtmlContent example_platform page_html ''http://x.test/page''
      = cheerio_html example_platform rewritten_page_nodes"
    by code_simp
  moreover have "document_elements rewritten_page_nodes ! 6
      = (''form'', [(''action'', ''/proxy?url=http%3A%2F%2Fx.test%2Fs''), (''method'', ''post'')])"
    by code_simp
  ultimately show ?thesis using up by (simp only: simp_thms)
qed

text \<open>
  C6, as amended. Let the parser read the page and the URL constructor read its
  address, and let an \<open>img\<close> or \<open>source\<close> element of the page have a \<open>srcset\<close> that is
  not empty. The transformer gives the serialisation of a tree in which that element
  stands at the same place, and its \<open>srcset\<close> is the candidates between the commas, each
  rewritten, joined with a comma and a space. A candidate is trimmed and split at the
  white space into its path, the first piece, and its descriptor, the other pieces
  with a space between them. A candidate whose path begins with \<open>data:\<close> stays as it is,
  and so does one whose path the URL constructor throws on; every other candidate
  becomes the proxied form of its path, followed by a space and the descriptor when
  there is one.
\<close>

theorem srcset_rewritten:
  assumes "cheerio_load P html = Inr nodes"
    and "URL_new P originalUrl = Some baseUrl"
    and "i < length (kept_elements nodes)"
    and "kept_elements nodes ! i = (tagName, attribs)"
    and "tagName = ''img'' \<or> tagName = ''source''"
    and "attr_get attribs ''srcset'' = Some srcsetAttr" and "srcsetAttr \<noteq> []"
  shows "let doc = rewrite_document (rewrite_element P baseUrl) P nodes in
         rewriteHtmlContent P html originalUrl = cheerio_html P doc
         \<and> fst (document_elements doc ! i) = tagName
         \<and> attr_get (snd (document_elements doc ! i)) ''srcset''
             = Some (join '', '' (map (rewrite_srcset_source P baseUrl)
                                     (split_on CHR '','' srcsetAttr)))
         \<and> (\<forall>source \<in> set (split_on CHR '','' srcsetAttr).
               let parts = split_ws (trim source);
                   path = hd parts;
                   descriptor = join '' '' (tl parts) in
               rewrite_srcset_source P baseUrl source =
                 (if startsWith path ''data:'' then source
                  else case URL_new_base P path baseUrl of
                         None \<Rightarrow> source
                       | Some u \<Rightarrow>
                           if descriptor = [] then ''/proxy?url='' @ encodeURIComponent (href u)
                           else ''/proxy?url='' @ encodeURIComponent (href u) @ '' '' @ descriptor))"
proof -
  from assms(5) have a: "attribute_of tagName = ''src''" by (auto simp: attribute_of_def)
  from assms(5) have s: "selected P tagName attribs" by (auto simp: selected_def)
  note e = rewriteHtmlContent_element [OF assms(1-4)]
  have "attr_get (rewrite_url_attribute method_or_GET P baseUrl tagName attribs) ''srcset''
      = Some srcsetAttr"
    using assms(6) a by (simp add: attr_get_rewrite_url_attribute_other)
  with assms(5,7) have "attr_get (rewrite_element P baseUrl tagName attribs) ''srcset''
      = Some (rewrite_srcset P baseUrl srcsetAttr)"
    by (auto simp: rewrite_element_def attr_get_rewrite_style_attribute
        rewrite_srcset_attribute_def attr_get_attr_set)
  with e s show ?thesis
    using rewrite_srcset_source_cases [of P baseUrl] by (simp add: rewrite_srcset_def Let_def)
qed

text \<open>
  The image of the page of the examples: two candidates with a density descriptor, and
  a candidate whose path begins with \<open>data:\<close>.
\<close>

theorem srcset_rewritten_witness:
  "rewriteHtmlContent example_platform page_html ''http://x.test/page'' = Inr rewritten_page_html
   \<and> kept_elements page_nodes ! 8
       = (''img'', [(''src'', ''/a.png''), (''srcset'', ''/a.png 1x, b.png   2x,data:x 3x'')])
   \<and> attr_get (snd (document_elements rewritten_page_nodes ! 8)) ''srcset''
       = Some ''/proxy?url=http%3A%2F%2Fx.test%2Fa.png 1x, /proxy?url=http%3A%2F%2Fx.test%2Fb.png 2x, data:x 3x''"
proof -
  have a: "cheerio_load example_platform page_html = Inr page_nodes" by code_simp
  have b: "URL_new example_platform ''http://x.test/page'' = Some page_url" by code_simp
  have c: "8 < length (kept_elements page_nodes)" by code_simp
  have d: "kept_elements page_nodes ! 8
      = (''img'', [(''src'', ''/a.png''), (''srcset'', ''/a.png 1x, b.png   2x,data:x 3x'')])"
    by code_simp
  have t: "''img'' = ''img'' \<or> ''img'' = ''source''" by simp
  have f: "attr_get [(''src'', ''/a.png''), (''srcset'', ''/a.png 1x, b.png   2x,data:x 3x'')]
      ''srcset'' = Some ''/a.png 1x, b.png   2x,data:x 3x''"
    by (simp add: attr_get_def)
  have n: "''/a.png 1x, b.png   2x,data:x 3x'' \<noteq> []" by simp
  have g: "rewrite_document (rewrite_element example_platform page_url) example_platform page_nodes
      = rewritten_page_nodes"
    by code_simp
  have h: "cheerio_html example_platform rewritten_page_nodes = Inr rewritten_page_html"
    by code_simp
  have j: "join '', '' (map (rewrite_srcset_source example_platform page_url)
             (split_on CHR '','' ''/a.png 1x, b.png   2x,data:x 3x''))
      = ''/proxy?url=http%3A%2F%2Fx.test%2Fa.png 1x, /proxy?url=http%3A%2F%2Fx.test%2Fb.png 2x, data:x 3x''"
    by code_simp
  from srcset_rewritten [OF a b c d t f n]
  have "rewriteHtmlContent example_platform page_html ''http://x.test/page''
          = cheerio_html example_platform rewritten_page_nodes
        \<and> attr_get (snd (document_elements rewritten_page_nodes ! 8)) ''srcset''
          = Some (join '', '' (map (rewrite_srcset_source example_platform page_url)
                (split_on CHR '','' ''/a.png 1x, b.png   2x,data:x 3x'')))"
    unfolding Let_def g by blast
  then show ?thesis by (simp only: d h j simp_thms)
qed

text \<open>
  C6 as it is stated fails at a candidate whose path is no URL: the URL constructor
  throws on \<open>http://[\<close>, which does not begin with \<open>data:\<close>, and the candidate, and with
  it the page, is left as it was.
\<close>

theorem srcset_candidate_counterexample:
  "cheerio_load example_platform srcset_html = Inr srcset_nodes
   \<and> kept_elements srcset_nodes ! 3 = (''img'', [(''srcset'', ''http://[ 1x'')])
   \<and> \<not> startsWith ''http://['' ''data:''
   \<and> URL_new_base example_platform ''http://['' page_url = None
   \<and> rewrite_srcset example_platform page_url ''http://[ 1x'' = ''http://[ 1x''
   \<and> rewriteHtmlContent example_platform srcset_html ''http://x.test/page'' = Inr srcset_html"
  by code_simp

text \<open>
  C7, as amended. Let the parser read the page and the URL constructor read its
  address. The transformer gives the serialisation of a tree that holds no element
  named \<open>base\<close>, at any depth; the elements of that tree are the elements of the parsed
  page that are no \<open>base\<close> element and stand in none, in their order, each with its name,
  and with the attributes the callback gives it when the selector matches it.
\<close>

theorem no_base_element:
  assumes "cheerio_load P html = Inr nodes"
    and "URL_new P originalUrl = Some baseUrl"
  shows "let doc = rewrite_document (rewrite_element P baseUrl) P nodes in
         rewriteHtmlContent P html originalUrl = cheerio_html P doc
         \<and> \<not> list_ex (has_element ''base'') doc
         \<and> document_elements doc
             = map (\<lambda>(tagName, attribs).
                      (tagName, if selected P tagName attribs
                                then rewrite_element P baseUrl tagName attribs else attribs))
                 (kept_elements nodes)"
  using transform_html_parsed [OF assms, of rewrite_element]
  by (simp add: Let_def rewriteHtmlContent_def rewrite_document_no_base
      document_elements_rewrite_document)

text \<open>
  The scenario of the specification: the \<open>base\<close> element in the head of the page of the
  examples is gone from the rewritten page, and the other elements are there.
\<close>

theorem no_base_element_witness:
  "cheerio_load example_platform page_html = Inr page_nodes
   \<and> list_ex (has_element ''base'') page_nodes
   \<and> str_includes page_html ''<base''
   \<and> rewriteHtmlContent example_platform page_html ''http://x.test/page'' = Inr rewritten_page_html
   \<and> \<not> list_ex (has_element ''base'') rewritten_page_nodes
   \<and> \<not> str_includes rewritten_page_html ''<base''
   \<and> map fst (document_elements page_nodes)
       = [''html'', ''head'', ''base'', ''link'', ''body'', ''a'', ''a'', ''form'', ''form'', ''img'', ''p'']
   \<and> map fst (document_elements rewritten_page_nodes)
       = [''html'', ''head'', ''link'', ''body'', ''a'', ''a'', ''form'', ''form'', ''img'', ''p'']"
proof -
  have a: "cheerio_load example_platform page_html = Inr page_nodes" by code_simp
  have b: "URL_new example_platform ''http://x.test/page'' = Some page_url" by code_simp
  have g: "rewrite_document (rewrite_element example_platform page_url) example_platform page_nodes
      = rewritten_page_nodes"
    by code_simp
  have h: "cheerio_html example_platform rewritten_page_nodes = Inr rewritten_page_html"
    by code_simp
  have i: "list_ex (has_element ''base'') page_nodes" by code_simp
  have j: "str_includes page_html ''<base''" by code_simp
  have k: "\<not> str_includes rewritten_page_html ''<base''"
    by (simp add: rewritten_page_html_def str_includes_Cons str_includes_Nil)
  have l: "map fst (document_elements page_nodes)
       = [''html'', ''head'', ''base'', ''link'', ''body'', ''a'', ''a'', ''form'', ''form'', ''img'', ''p'']"
    by code_simp
  have m: "map fst (document_elements rewritten_page_nodes)
       = [''html'', ''head'', ''link'', ''body'', ''a'', ''a'', ''form'', ''form'', ''img'', ''p'']"
    by code_simp
  from no_base_element [OF a b]
  have "rewriteHtmlContent example_platform page_html ''http://x.test/page''
          = cheerio_html example_platform rewritten_page_nodes
        \<and> \<not> list_ex (has_element ''base'') rewritten_page_nodes"
    unfolding Let_def g by blast
  then show ?thesis using a i j k l m by (simp only: h simp_thms)
qed

text \<open>
  C7 as it is stated fails at a page whose \<open>noscript\<close> element holds the markup of a
  \<open>base\<close> element: to the parser what a \<open>noscript\<close> element of the head holds is text, so
  the tree has no \<open>base\<close> element to remove, and the transformer gives the page back
  as it was, with the markup of the \<open>base\<close> element in it.
\<close>

theorem noscript_base_counterexample:
  "cheerio_load example_platform noscript_html = Inr noscript_nodes
   \<and> \<not> list_ex (has_element ''base'') noscript_nodes
   \<and> rewriteHtmlContent example_platform noscript_html ''http://x.test/page'' = Inr noscript_html
   \<and> str_includes noscript_html ''<base''"
  by code_simp

text \<open>
  C8. For every request that fails one of the three checks (no or an empty \<open>url\<close>
  value, a value the URL constructor throws on, a protocol other than \<open>http:\<close> and
  \<open>https:\<close>), the handler makes no call of \<open>fetch\<close> and answers with the status 400
  or 403; its answer is the same whatever the upstream server would do.
\<close>

theorem rejected_before_fetch:
  assumes "rejected P req"
  shows "snd (handler P fetch req res) = []
         \<and> (statusCode (fst (handler P fetch req res)) = 400
              \<or> statusCode (fst (handler P fetch req res)) = 403)
         \<and> handler P fetch req res = handler P fetch' req res"
  using assms
  by (auto simp: rejected_def handler_def send_error_def split: option.splits)

text \<open>The scenario of the specification: a request for \<open>ftp://x.test/f\<close>.\<close>

theorem rejected_before_fetch_witness:
  "rejected example_platform (get_request ''ftp://x.test/f'')
   \<and> handler example_platform (serves [] ''file'') (get_request ''ftp://x.test/f'') initial_response
     = (\<lparr>statusCode = 403, out_headers = [], sent = ErrorObject ProtocolNotAllowed\<rparr>, [])"
proof -
  have r: "rejected example_platform (get_request ''ftp://x.test/f'')"
    by code_simp
  have "fst (handler example_platform (serves [] ''file'') (get_request ''ftp://x.test/f'')
      initial_response) = \<lparr>statusCode = 403, out_headers = [], sent = ErrorObject ProtocolNotAllowed\<rparr>"
    by code_simp
  with r rejected_before_fetch [OF r, of "serves [] ''file''" initial_response] show ?thesis
    by (simp add: prod_eq_iff)
qed

text \<open>
  C9, at an input where the code departs from it. The upstream server answers with
  two \<open>set-cookie\<close> headers, \<open>a=1\<close> and \<open>b=2\<close>, of which none is excluded. The handler
  calls \<open>res.setHeader\<close> once for each, and the second call replaces what the first
  has set: the outbound response has the one header \<open>set-cookie: b=2\<close>, and the header
  \<open>set-cookie: a=1\<close> is not copied to it.
\<close>

theorem set_cookie_header_replaced:
  "toLowerCase example_platform ''set-cookie'' \<notin> set excluded_headers
   \<and> out_headers (fst (handler example_platform
          (serves [(''set-cookie'', ''a=1''), (''set-cookie'', ''b=2'')] ''ok'')
          (get_request ''http://x.test/page'') initial_response))
       = [(''set-cookie'', ''set-cookie'', ''b=2'')]
   \<and> getHeader example_platform (fst (handler example_platform
          (serves [(''set-cookie'', ''a=1''), (''set-cookie'', ''b=2'')] ''ok'')
          (get_request ''http://x.test/page'') initial_response)) ''set-cookie''
       = Some ''b=2''"
  by code_simp

text \<open>
  C10. Let the parser read the page and the URL constructor read its address, and let
  an element that the selector matches hold in its URL attribute (\<open>href\<close>, \<open>src\<close> or
  \<open>action\<close>) a value that begins with \<open>http://\<close> or \<open>https://\<close> and that the URL constructor
  accepts. The value is not skipped: the transformer gives the serialisation of a tree
  in which the attribute of that element is \<open>/proxy?url=\<close> followed by the
  percent-encoding of the URL. The callback of the \<open>url(...)\<close> references returns its
  match unchanged for the same value, so the skip is there alone. And when the
  rewritten page is given to the transformer again, and the parser reads it as the
  tree it was written from, the attribute is wrapped again, whenever the URL
  constructor resolves the proxied value.
\<close>

theorem absolute_attribute_rewritten:
  assumes "cheerio_load P html = Inr nodes"
    and "URL_new P originalUrl = Some baseUrl"
    and "i < length (kept_elements nodes)"
    and "kept_elements nodes ! i = (tagName, attribs)"
    and "selected P tagName attribs"
    and "attr_get attribs (attribute_of tagName) = Some R"
    and "startsWith R ''http://'' \<or> startsWith R ''https://''"
    and "URL_new_base P R baseUrl = Some u"
  shows "let doc = rewrite_document (rewrite_element P baseUrl) P nodes;
             doc2 = rewrite_document (rewrite_element P baseUrl) P doc in
         rewriteHtmlContent P html originalUrl = cheerio_html P doc
         \<and> fst (document_elements doc ! i) = tagName
         \<and> attr_get (snd (document_elements doc ! i)) (attribute_of tagName)
             = Some (''/proxy?url='' @ encodeURIComponent (href u))
         \<and> url_replacer P baseUrl match quote R = match
         \<and> (\<forall>out u2.
               cheerio_html P doc = Inr out \<and> cheerio_load P out = Inr doc
               \<and> URL_new_base P (''/proxy?url='' @ encodeURIComponent (href u)) baseUrl = Some u2
               \<longrightarrow> rewriteHtmlContent P out originalUrl = cheerio_html P doc2
                    \<and> fst (document_elements doc2 ! i) = tagName
                    \<and> attr_get (snd (document_elements doc2 ! i)) (attribute_of tagName)
                        = Some (''/proxy?url='' @ encodeURIComponent (href u2)))"
proof -
  let ?doc = "rewrite_document (rewrite_element P baseUrl) P nodes"
  let ?doc2 = "rewrite_document (rewrite_element P baseUrl) P ?doc"
  let ?attribs = "rewrite_element P baseUrl tagName attribs"
  note h = startsWith_http [OF assms(7)]
  note e = rewriteHtmlContent_element [OF assms(1-4)]
  have el: "document_elements ?doc ! i = (tagName, ?attribs)"
    using e(3) assms(5) by simp
  have first: "attr_get ?attribs (attribute_of tagName)
      = Some (proxyPrefix @ encodeURIComponent (href u))"
    using assms(6) h(1) h(2) assms(8) by (rule rewrite_element_proxied)
  have skip: "url_replacer P baseUrl match quote R = match"
    using h(3) by (simp add: url_replacer_def)
  have k: "kept_elements ?doc = document_elements ?doc"
    by (rule kept_elements_no_base) (rule rewrite_document_no_base)
  have i2: "i < length (kept_elements ?doc)" using e(2) assms(3) by (simp add: k)
  have el2: "kept_elements ?doc ! i = (tagName, ?attribs)" by (simp add: k el)
  have s2: "selected P tagName ?attribs"
    using assms(5) by (simp add: selected_rewrite_element)
  have second: "rewriteHtmlContent P out originalUrl = cheerio_html P ?doc2
      \<and> fst (document_elements ?doc2 ! i) = tagName
      \<and> attr_get (snd (document_elements ?doc2 ! i)) (attribute_of tagName)
          = Some (proxyPrefix @ encodeURIComponent (href u2))"
    if l: "cheerio_load P out = Inr ?doc"
      and r: "URL_new_base P (proxyPrefix @ encodeURIComponent (href u)) baseUrl = Some u2"
    for out u2
  proof -
    note e2 = rewriteHtmlContent_element [OF l assms(2) i2 el2]
    have "attr_get (rewrite_element P baseUrl tagName ?attribs) (attribute_of tagName)
        = Some (proxyPrefix @ encodeURIComponent (href u2))"
      using first _ _ r by (rule rewrite_element_proxied) (simp_all add: proxyPrefix_def)
    with e2 s2 show ?thesis by simp
  qed
  show ?thesis
    unfolding Let_def
  proof (intro conjI)
    show "rewriteHtmlContent P html originalUrl = cheerio_html P ?doc" by (rule e(1))
    show "fst (document_elements ?doc ! i) = tagName" by (simp add: el)
    show "attr_get (snd (document_elements ?doc ! i)) (attribute_of tagName)
        = Some (''/proxy?url='' @ encodeURIComponent (href u))"
      using first by (simp add: el proxyPrefix_def)
    show "url_replacer P baseUrl match quote R = match" by (rule skip)
    show "\<forall>out u2.
        cheerio_html P ?doc = Inr out \<and> cheerio_load P out = Inr ?doc
        \<and> URL_new_base P (''/proxy?url='' @ encodeURIComponent (href u)) baseUrl = Some u2
        \<longrightarrow> rewriteHtmlContent P out originalUrl = cheerio_html P ?doc2
             \<and> fst (document_elements ?doc2 ! i) = tagName
             \<and> attr_get (snd (document_elements ?doc2 ! i)) (attribute_of tagName)
                 = Some (''/proxy?url='' @ encodeURIComponent (href u2))"
    proof (intro allI impI, elim conjE)
      fix out u2
      assume l: "cheerio_load P out = Inr ?doc"
        and r: "URL_new_base P (''/proxy?url='' @ encodeURIComponent (href u)) baseUrl = Some u2"
      from r have "URL_new_base P (proxyPrefix @ encodeURIComponent (href u)) baseUrl = Some u2"
        by (simp add: proxyPrefix_def)
      from second [OF l this]
      show "rewriteHtmlContent P out originalUrl = cheerio_html P ?doc2
          \<and> fst (document_elements ?doc2 ! i) = tagName
          \<and> attr_get (snd (document_elements ?doc2 ! i)) (attribute_of tagName)
              = Some (''/proxy?url='' @ encodeURIComponent (href u2))"
        by (simp add: proxyPrefix_def)
    qed
  qed
qed

text \<open>
  A page with a link to \<open>http://y.test/z\<close>, fetched from \<open>http://x.test/page\<close>, and the
  rewritten page given to the transformer again.
\<close>

theorem absolute_attribute_rewritten_witness:
  "rewriteHtmlContent example_platform link_html ''http://x.test/page'' = Inr rewritten_link_html
   \<and> kept_elements link_nodes ! 3 = (''a'', [(''href'', ''http://y.test/z'')])
   \<and> document_elements rewritten_link_nodes ! 3
       = (''a'', [(''href'', ''/proxy?url=http%3A%2F%2Fy.test%2Fz'')])
   \<and> url_replacer example_platform page_url ''url(http://y.test/z)'' [] ''http://y.test/z''
       = ''url(http://y.test/z)''
   \<and> rewriteHtmlContent example_platform rewritten_link_html ''http://x.test/page''
       = Inr twice_rewritten_link_html
   \<and> attr_get (snd (document_elements twice_rewritten_link_nodes ! 3)) ''href''
       = Some ''/proxy?url=http%3A%2F%2Fx.test%2Fproxy%3Furl%3Dhttp%253A%252F%252Fy.test%252Fz''"
proof -
  have a: "cheerio_load example_platform link_html = Inr link_nodes" by code_simp
  have b: "URL_new example_platform ''http://x.test/page'' = Some page_url" by code_simp
  have c: "3 < length (kept_elements link_nodes)" by code_simp
  have d: "kept_elements link_nodes ! 3 = (''a'', [(''href'', ''http://y.test/z'')])" by code_simp
  have s: "selected example_platform ''a'' [(''href'', ''http://y.test/z'')]"
    by (simp add: selected_def)
  have f: "attr_get [(''href'', ''http://y.test/z'')] (attribute_of ''a'') = Some ''http://y.test/z''"
    by (simp add: attr_get_def attribute_of_def)
  have p: "startsWith ''http://y.test/z'' ''http://'' \<or> startsWith ''http://y.test/z'' ''https://''"
    by simp
  have r: "URL_new_base example_platform ''http://y.test/z'' page_url = Some (http_url ''http://y.test/z'')"
    by (simp add: example_platform_def example_references_def page_url_def http_url_def)
  have g: "rewrite_document (rewrite_element example_platform page_url) example_platform link_nodes
      = rewritten_link_nodes"
    by code_simp
  have g2: "rewrite_document (rewrite_element example_platform page_url) example_platform
      rewritten_link_nodes = twice_rewritten_link_nodes"
    by code_simp
  have h: "cheerio_html example_platform rewritten_link_nodes = Inr rewritten_link_html"
    "cheerio_html example_platform twice_rewritten_link_nodes = Inr twice_rewritten_link_html"
    by code_simp+
  have l: "cheerio_load example_platform rewritten_link_html = Inr rewritten_link_nodes"
    by code_simp
  have el: "document_elements rewritten_link_nodes ! 3
       = (''a'', [(''href'', ''/proxy?url=http%3A%2F%2Fy.test%2Fz'')])"
    by code_simp
  have enc: "encodeURIComponent ''http://y.test/z'' = ''http%3A%2F%2Fy.test%2Fz''"
    by code_simp
  have enc2: "encodeURIComponent ''http://x.test/proxy?url=http%3A%2F%2Fy.test%2Fz''
      = ''http%3A%2F%2Fx.test%2Fproxy%3Furl%3Dhttp%253A%252F%252Fy.test%252Fz''"
    by code_simp
  have r2: "URL_new_base example_platform ''/proxy?url=http%3A%2F%2Fy.test%2Fz'' page_url
      = Some (http_url ''http://x.test/proxy?url=http%3A%2F%2Fy.test%2Fz'')"
    by (simp add: example_platform_def example_references_def page_url_def http_url_def)
  have at: "attribute_of ''a'' = ''href''" by (simp add: attribute_of_def)
  show ?thesis
    using absolute_attribute_rewritten [OF a b c d s f p r, of "''url(http://y.test/z)''" "[]"]
    by (simp add: Let_def g g2 h l el d enc enc2 r2 at http_url_def)
qed

end
